theory Spec2Isabelle
  imports Main "HOL-Library.Sublist"
begin

section \<open>The events route: feed aggregation\<close>

text \<open>
  A shallow embedding of the route handler of the events API (the module that exports
  \<open>WorldEvent\<close>, \<open>normalizeEvent\<close> and \<open>GET\<close>).

  Strings are modelled by their UTF-8 bytes (\<open>string\<close>), so \<open>Buffer.from(url)\<close> is the
  string itself. The built-ins of the JavaScript runtime whose behaviour is fixed outside
  the repository (date parsing, ISO formatting, Unicode lower-casing) are collected in a
  record \<open>runtime\<close> that every function takes as a parameter; the remote feeds are a
  function from feed address to the outcome of \<open>parser.parseURL\<close>.
\<close>

subsection \<open>Strings: white space, trimming, substring test\<close>

text \<open>
  The white space of \<open>String.prototype.trim\<close>, of the regular expression class \<open>\s\<close> and
  of \<open>parseInt\<close>: TAB, LF, VT, FF, CR, SP, and in UTF-8 the code points U+00A0, U+1680,
  U+2000 to U+200A, U+2028, U+2029, U+202F, U+205F, U+3000 and U+FEFF.
\<close>

definition isWhiteSpace1 :: "char \<Rightarrow> bool" where
  "isWhiteSpace1 c = (of_char c \<in> {0x09, 0x0A, 0x0B, 0x0C, 0x0D, 0x20 :: nat})"

definition isWhiteSpace2 :: "char \<Rightarrow> char \<Rightarrow> bool" where
  "isWhiteSpace2 a b = (of_char a = (0xC2 :: nat) \<and> of_char b = (0xA0 :: nat))"

definition isWhiteSpace3 :: "char \<Rightarrow> char \<Rightarrow> char \<Rightarrow> bool" where
  "isWhiteSpace3 a b c =
     (let x = of_char a :: nat; y = of_char b :: nat; z = of_char c :: nat in
        (x = 0xE1 \<and> y = 0x9A \<and> z = 0x80)
      \<or> (x = 0xE2 \<and> y = 0x80 \<and> ((0x80 \<le> z \<and> z \<le> 0x8A) \<or> z = 0xA8 \<or> z = 0xA9 \<or> z = 0xAF))
      \<or> (x = 0xE2 \<and> y = 0x81 \<and> z = 0x9F)
      \<or> (x = 0xE3 \<and> y = 0x80 \<and> z = 0x80)
      \<or> (x = 0xEF \<and> y = 0xBB \<and> z = 0xBF))"

text \<open>The number of bytes of the white-space character a string starts with, 0 when it
  starts with none.\<close>

definition wsLen :: "string \<Rightarrow> nat" where
  "wsLen s =
     (case s of
        [] \<Rightarrow> 0
      | a # r \<Rightarrow>
          if isWhiteSpace1 a then 1
          else (case r of
                  [] \<Rightarrow> 0
                | b # r2 \<Rightarrow>
                    if isWhiteSpace2 a b then 2
                    else (case r2 of [] \<Rightarrow> 0 | c # _ \<Rightarrow> if isWhiteSpace3 a b c then 3 else 0)))"

text \<open>The same, for the character a string ends with.\<close>

definition wsLenEnd :: "string \<Rightarrow> nat" where
  "wsLenEnd s =
     (case rev s of
        [] \<Rightarrow> 0
      | c # r \<Rightarrow>
          if isWhiteSpace1 c then 1
          else (case r of
                  [] \<Rightarrow> 0
                | b # r2 \<Rightarrow>
                    if isWhiteSpace2 b c then 2
                    else (case r2 of [] \<Rightarrow> 0 | a # _ \<Rightarrow> if isWhiteSpace3 a b c then 3 else 0)))"

lemma wsLen_le: "wsLen s \<le> length s"
  by (simp add: wsLen_def split: list.splits)

lemma wsLenEnd_le: "wsLenEnd s \<le> length s"
proof -
  have "wsLenEnd s \<le> length (rev s)"
    unfolding wsLenEnd_def by (simp split: list.splits)
  then show ?thesis by simp
qed

function trimStart :: "string \<Rightarrow> string" where
  "trimStart s = (if wsLen s = 0 then s else trimStart (drop (wsLen s) s))"
  by pat_completeness auto
termination
proof (relation "measure length")
  show "wf (measure length)" by simp
next
  fix s :: string
  assume "wsLen s \<noteq> 0"
  moreover have "wsLen s \<le> length s" by (rule wsLen_le)
  ultimately show "(drop (wsLen s) s, s) \<in> measure length" by simp
qed

function trimEnd :: "string \<Rightarrow> string" where
  "trimEnd s = (if wsLenEnd s = 0 then s else trimEnd (take (length s - wsLenEnd s) s))"
  by pat_completeness auto
termination
proof (relation "measure length")
  show "wf (measure length)" by simp
next
  fix s :: string
  assume "wsLenEnd s \<noteq> 0"
  moreover have "wsLenEnd s \<le> length s" by (rule wsLenEnd_le)
  ultimately show "(take (length s - wsLenEnd s) s, s) \<in> measure length" by simp
qed

declare trimStart.simps [simp del] trimEnd.simps [simp del]

definition trim :: "string \<Rightarrow> string" where
  "trim s = trimEnd (trimStart s)"

lemma length_trimStart: "length (trimStart s) \<le> length s"
proof (induction s rule: trimStart.induct)
  case (1 s)
  show ?case
  proof (cases "wsLen s = 0")
    case True
    then show ?thesis by (simp add: trimStart.simps [of s])
  next
    case False
    with "1" have "length (trimStart (drop (wsLen s) s)) \<le> length (drop (wsLen s) s)"
      by simp
    with False show ?thesis by (simp add: trimStart.simps [of s])
  qed
qed

lemma length_trimStart_less: "wsLen s \<noteq> 0 \<Longrightarrow> length (trimStart s) < length s"
proof -
  assume ws: "wsLen s \<noteq> 0"
  have "length (trimStart (drop (wsLen s) s)) \<le> length (drop (wsLen s) s)"
    by (rule length_trimStart)
  moreover have "wsLen s \<le> length s" by (rule wsLen_le)
  ultimately show ?thesis using ws by (simp add: trimStart.simps [of s])
qed

text \<open>\<open>value.replace(/\s+/g, " ")\<close>: every maximal run of white space becomes one space.\<close>

function replaceWhitespace :: "string \<Rightarrow> string" where
  "replaceWhitespace s =
     (if s = [] then []
      else if wsLen s = 0 then hd s # replaceWhitespace (tl s)
      else CHR '' '' # replaceWhitespace (trimStart s))"
  by pat_completeness auto
termination
proof (relation "measure length")
  show "wf (measure length)" by simp
next
  fix s :: string
  assume "s \<noteq> []" "wsLen s = 0"
  then show "(tl s, s) \<in> measure length" by (cases s) simp_all
next
  fix s :: string
  assume "s \<noteq> []" "wsLen s \<noteq> 0"
  then show "(trimStart s, s) \<in> measure length" by (simp add: length_trimStart_less)
qed

declare replaceWhitespace.simps [simp del]

text \<open>\<open>haystack.includes(needle)\<close>.\<close>

fun stringIncludes :: "string \<Rightarrow> string \<Rightarrow> bool" where
  "stringIncludes [] q = (q = [])"
| "stringIncludes (c # cs) q = (take (length q) (c # cs) = q \<or> stringIncludes cs q)"

text \<open>The regular expression \<open>/^https?:\/\//\<close>.\<close>

definition isHttpUrl :: "string \<Rightarrow> bool" where
  "isHttpUrl u = (take 7 u = ''http://'' \<or> take 8 u = ''https://'')"

text \<open>A string used as a condition: \<open>undefined\<close> and the empty string are falsy.\<close>

definition truthy :: "string option \<Rightarrow> bool" where
  "truthy v = (case v of None \<Rightarrow> False | Some s \<Rightarrow> s \<noteq> [])"

subsection \<open>base64url\<close>

text \<open>\<open>Buffer.from(url).toString("base64url")\<close>: three bytes become four characters of
  the URL-safe alphabet, a last group of one or two bytes becomes two or three characters,
  and there is no padding.\<close>

definition base64urlAlphabet :: string where
  "base64urlAlphabet = ''ABCDEFGHIJKLMNOPQRSTUVWXYZabcdefghijklmnopqrstuvwxyz0123456789-_''"

definition b64char :: "nat \<Rightarrow> char" where
  "b64char n = base64urlAlphabet ! n"

fun base64url :: "string \<Rightarrow> string" where
  "base64url (a # b # c # rest) =
     (let x = of_char a :: nat; y = of_char b :: nat; z = of_char c :: nat in
        b64char (x div 4) # b64char ((x mod 4) * 16 + y div 16)
          # b64char ((y mod 16) * 4 + z div 64) # b64char (z mod 64) # base64url rest)"
| "base64url [a, b] =
     (let x = of_char a :: nat; y = of_char b :: nat in
        [b64char (x div 4), b64char ((x mod 4) * 16 + y div 16), b64char ((y mod 16) * 4)])"
| "base64url [a] =
     (let x = of_char a :: nat in [b64char (x div 4), b64char ((x mod 4) * 16)])"
| "base64url [] = []"

subsection \<open>The runtime and the data\<close>

text \<open>
  \<open>dateParse s\<close> is the time value of \<open>new Date(s)\<close> in milliseconds since the epoch,
  \<open>None\<close> for an invalid date (time value NaN); \<open>toISOString t\<close> is
  \<open>Date.prototype.toISOString\<close> on a valid time value (on an invalid date it throws a
  \<open>RangeError\<close>, which \<open>normalizeEvent\<close> below writes out); \<open>toLowerCase\<close> is
  \<open>String.prototype.toLowerCase\<close>.
\<close>

record runtime =
  dateParse :: "string \<Rightarrow> int option"
  toISOString :: "int \<Rightarrow> string"
  toLowerCase :: "string \<Rightarrow> string"

datatype error = RangeError | FetchError

text \<open>\<open>EventSource\<close>, declared in the registry module \<open>lib/eventSources\<close>.\<close>

record EventSource =
  srcId :: string
  srcName :: string
  srcHomepage :: string
  srcFeed :: string
  srcRegions :: "string list"

text \<open>An entry of the \<open>media:content\<close> array: an object with a \<open>url\<close> key (and the value
  under it, which may be \<open>undefined\<close>), or anything else.\<close>

datatype mediaEntry = WithUrl "string option" | WithoutUrl

text \<open>\<open>Parser.Item\<close>, the fields the handler reads. \<open>enclosure = Some None\<close> is an
  enclosure without \<open>url\<close>; \<open>mediaContent = None\<close> is a \<open>media:content\<close> that is not an
  array.\<close>

record RawItem =
  link :: "string option"
  title :: "string option"
  isoDate :: "string option"
  pubDate :: "string option"
  contentSnippet :: "string option"
  content :: "string option"
  enclosure :: "string option option"
  mediaContent :: "mediaEntry list option"

text \<open>\<open>WorldEvent\<close>. Its fields \<open>id\<close>, \<open>title\<close> and \<open>image\<close> are \<open>eventId\<close>, \<open>eventTitle\<close>
  and \<open>eventImage\<close> here, and the fields of \<open>EventSource\<close> carry the prefix \<open>src\<close>: a
  record field is a constant, and \<open>id\<close>, \<open>image\<close> and the field names of the other records
  are taken.\<close>

record WorldEvent =
  eventId :: string
  eventTitle :: string
  summary :: string
  url :: string
  sourceName :: string
  sourceId :: string
  sourceHomepage :: string
  publishedAt :: string
  regions :: "string list"
  eventImage :: "string option"

subsection \<open>sanitizeSummary and normalizeEvent\<close>

definition sanitizeSummary :: "string option \<Rightarrow> string" where
  "sanitizeSummary v =
     (case v of
        None \<Rightarrow> []
      | Some s \<Rightarrow> if s = [] then [] else trim (replaceWhitespace s))"

text \<open>The image of an item: the enclosure's URL when it is an HTTP(S) URL; otherwise, when
  \<open>media:content\<close> is an array, the URL of its first entry that has a \<open>url\<close> key, when that
  URL is an HTTP(S) URL.\<close>

definition enclosureImage :: "RawItem \<Rightarrow> string option" where
  "enclosureImage item =
     (case enclosure item of
        Some (Some u) \<Rightarrow> if u \<noteq> [] \<and> isHttpUrl u then Some u else None
      | _ \<Rightarrow> None)"

definition mediaImage :: "RawItem \<Rightarrow> string option" where
  "mediaImage item =
     (case mediaContent item of
        None \<Rightarrow> None
      | Some entries \<Rightarrow>
          (case find (\<lambda>m. m \<noteq> WithoutUrl) entries of
             Some (WithUrl (Some u)) \<Rightarrow> if u \<noteq> [] \<and> isHttpUrl u then Some u else None
           | _ \<Rightarrow> None))"

definition resolveImage :: "RawItem \<Rightarrow> string option" where
  "resolveImage item =
     (case enclosureImage item of
        Some u \<Rightarrow> Some u
      | None \<Rightarrow> mediaImage item)"

text \<open>\<open>publishedAt\<close> is computed before the test of \<open>title\<close> and \<open>url\<close>, and
  \<open>new Date(item.pubDate).toISOString()\<close> throws a \<open>RangeError\<close> on an invalid date.\<close>

definition normalizeEvent :: "runtime \<Rightarrow> EventSource \<Rightarrow> RawItem \<Rightarrow> error + WorldEvent option" where
  "normalizeEvent rt source item =
     (let u = (case link item of None \<Rightarrow> [] | Some l \<Rightarrow> l);
          t = map_option trim (title item);
          published =
            (case isoDate item of
               Some d \<Rightarrow> Inr (Some d)
             | None \<Rightarrow>
                 if truthy (pubDate item)
                 then (case dateParse rt (the (pubDate item)) of
                         None \<Rightarrow> Inl RangeError
                       | Some ms \<Rightarrow> Inr (Some (toISOString rt ms)))
                 else Inr None)
      in case published of
           Inl e \<Rightarrow> Inl e
         | Inr p \<Rightarrow>
             if \<not> truthy t \<or> u = [] \<or> \<not> truthy p then Inr None
             else
               let description =
                     (if sanitizeSummary (contentSnippet item) \<noteq> []
                      then sanitizeSummary (contentSnippet item)
                      else sanitizeSummary (content item))
               in Inr (Some \<lparr> eventId = srcId source @ '':'' @ base64url u,
                               eventTitle = the t,
                               summary = description,
                               url = u,
                               sourceName = srcName source,
                               sourceId = srcId source,
                               sourceHomepage = srcHomepage source,
                               publishedAt = the p,
                               regions = srcRegions source,
                               eventImage = resolveImage item \<rparr>))"

subsection \<open>The request parameters\<close>

text \<open>\<open>searchParams\<close> is the decoded query string, a list of name/value pairs;
  \<open>searchParams.get\<close> returns the value of the first pair with the name.\<close>

type_synonym searchParams = "(string \<times> string) list"

definition getParam :: "searchParams \<Rightarrow> string \<Rightarrow> string option" where
  "getParam ps k = map_of ps k"

text \<open>A JavaScript number, as far as \<open>parseInt\<close> produces one: the integers are kept
  exact (the rounding of a long digit string to a double changes neither its comparison
  with 10 nor, above \<open>2^53\<close>, what \<open>slice\<close> returns), and a magnitude that rounds beyond
  the largest double is an infinity.\<close>

datatype number = NaN | PosInfinity | NegInfinity | Finite int

definition toNumber :: "int \<Rightarrow> number" where
  "toNumber v =
     (if 2 ^ 1024 - 2 ^ 970 \<le> v then PosInfinity
      else if v \<le> - (2 ^ 1024 - 2 ^ 970) then NegInfinity
      else Finite v)"

definition isDigit :: "char \<Rightarrow> bool" where
  "isDigit c = (48 \<le> (of_char c :: nat) \<and> (of_char c :: nat) \<le> 57)"

definition digitsValue :: "string \<Rightarrow> int" where
  "digitsValue ds = foldl (\<lambda>acc c. acc * 10 + (int (of_char c) - 48)) 0 ds"

text \<open>\<open>Number.parseInt(str, 10)\<close>: leading white space is skipped, one sign is read, and
  the longest run of decimal digits that follows is the value; without a digit there the
  result is NaN.\<close>

definition parseInt10 :: "string \<Rightarrow> number" where
  "parseInt10 str =
     (let s = trimStart str;
          negative = (s \<noteq> [] \<and> hd s = CHR ''-'');
          body = (if s \<noteq> [] \<and> (hd s = CHR ''+'' \<or> hd s = CHR ''-'') then tl s else s);
          z = takeWhile isDigit body
      in if z = [] then NaN
         else toNumber (if negative then - digitsValue z else digitsValue z))"

definition limitOf :: "searchParams \<Rightarrow> int" where
  "limitOf ps =
     (case parseInt10 (case getParam ps ''limit'' of None \<Rightarrow> [] | Some s \<Rightarrow> s) of
        Finite v \<Rightarrow> max v 10
      | _ \<Rightarrow> 60)"

definition queryOf :: "runtime \<Rightarrow> searchParams \<Rightarrow> string option" where
  "queryOf rt ps = map_option (\<lambda>s. toLowerCase rt (trim s)) (getParam ps ''query'')"

definition regionOf :: "runtime \<Rightarrow> searchParams \<Rightarrow> string" where
  "regionOf rt ps =
     (let regionParam = map_option (toLowerCase rt) (getParam ps ''region'')
      in if truthy regionParam \<and> regionParam \<noteq> Some ''global'' then the regionParam
         else ''global'')"

subsection \<open>The stages of GET\<close>

definition selectSources :: "EventSource list \<Rightarrow> string \<Rightarrow> EventSource list" where
  "selectSources registry region =
     (if region = ''global'' then registry
      else filter (\<lambda>source. region \<in> set (srcRegions source)) registry)"

text \<open>The outcome of \<open>parser.parseURL\<close> for a feed address: a rejection (network error,
  timeout, malformed document) or a feed, whose \<open>items\<close> may be undefined.\<close>

type_synonym feeds = "string \<Rightarrow> error + RawItem list option"

text \<open>\<open>items.map((item) => normalizeEvent(source, item))\<close>: the first exception ends it.\<close>

fun mapNormalize :: "runtime \<Rightarrow> EventSource \<Rightarrow> RawItem list \<Rightarrow> error + WorldEvent option list" where
  "mapNormalize rt source [] = Inr []"
| "mapNormalize rt source (item # rest) =
     (case normalizeEvent rt source item of
        Inl e \<Rightarrow> Inl e
      | Inr r \<Rightarrow>
          (case mapNormalize rt source rest of
             Inl e \<Rightarrow> Inl e
           | Inr rs \<Rightarrow> Inr (r # rs)))"

text \<open>The callback of \<open>sources.map\<close>: the \<open>try\<close> block around the fetch and the
  normalization of one source, whose \<open>catch\<close> returns the empty list.\<close>

definition sourceEvents :: "runtime \<Rightarrow> feeds \<Rightarrow> EventSource \<Rightarrow> WorldEvent list" where
  "sourceEvents rt fetch source =
     (case fetch (srcFeed source) of
        Inl e \<Rightarrow> []
      | Inr feed \<Rightarrow>
          (case mapNormalize rt source (case feed of None \<Rightarrow> [] | Some its \<Rightarrow> its) of
             Inl e \<Rightarrow> []
           | Inr rs \<Rightarrow> map the (filter (\<lambda>r. r \<noteq> None) rs)))"

text \<open>\<open>Promise.all\<close> returns the results in the order of \<open>sources\<close>, whatever the order
  in which the fetches settle.\<close>

definition flattened :: "runtime \<Rightarrow> feeds \<Rightarrow> EventSource list \<Rightarrow> WorldEvent list" where
  "flattened rt fetch sources = concat (map (sourceEvents rt fetch) sources)"

text \<open>The loop over \<open>flattened\<close> that fills the \<open>Map\<close> \<open>unique\<close>; a \<open>Map\<close> keeps its keys
  in insertion order, so it is a list of pairs here.\<close>

fun uniqueLoop :: "(string \<times> WorldEvent) list \<Rightarrow> WorldEvent list \<Rightarrow> (string \<times> WorldEvent) list" where
  "uniqueLoop unique [] = unique"
| "uniqueLoop unique (event # rest) =
     (if url event \<in> set (map fst unique) then uniqueLoop unique rest
      else uniqueLoop (unique @ [(url event, event)]) rest)"

definition uniqueEvents :: "WorldEvent list \<Rightarrow> WorldEvent list" where
  "uniqueEvents evs = map snd (uniqueLoop [] evs)"

definition filterQuery :: "runtime \<Rightarrow> string option \<Rightarrow> WorldEvent list \<Rightarrow> WorldEvent list" where
  "filterQuery rt query evs =
     (if truthy query
      then filter (\<lambda>event.
             stringIncludes (toLowerCase rt (eventTitle event @ '' '' @ summary event)) (the query)) evs
      else evs)"

text \<open>The comparator of the sort, \<open>new Date(b.publishedAt).getTime() -
  new Date(a.publishedAt).getTime()\<close>: NaN (\<open>None\<close>) when either date is invalid. The
  difference of two time values has the sign of their exact difference.\<close>

definition compareEvents :: "runtime \<Rightarrow> WorldEvent \<Rightarrow> WorldEvent \<Rightarrow> int option" where
  "compareEvents rt a b =
     (case (dateParse rt (publishedAt b), dateParse rt (publishedAt a)) of
        (Some tb, Some ta) \<Rightarrow> Some (tb - ta)
      | _ \<Rightarrow> None)"

text \<open>
  \<open>Array.prototype.sort\<close>. ECMAScript reads a comparator result of NaN as 0, requires the
  sort to be stable, and fixes the result when the comparator is consistent; with an
  inconsistent comparator the order is implementation-defined. The model is the stable
  insertion sort, which is that result for a consistent comparator.
\<close>

definition sortCompare :: "('a \<Rightarrow> 'a \<Rightarrow> int option) \<Rightarrow> 'a \<Rightarrow> 'a \<Rightarrow> int" where
  "sortCompare comparefn x y = (case comparefn x y of None \<Rightarrow> 0 | Some v \<Rightarrow> v)"

fun sortInsert :: "('a \<Rightarrow> 'a \<Rightarrow> int option) \<Rightarrow> 'a \<Rightarrow> 'a list \<Rightarrow> 'a list" where
  "sortInsert comparefn x [] = [x]"
| "sortInsert comparefn x (y # ys) =
     (if sortCompare comparefn x y \<le> 0 then x # y # ys
      else y # sortInsert comparefn x ys)"

definition arraySort :: "('a \<Rightarrow> 'a \<Rightarrow> int option) \<Rightarrow> 'a list \<Rightarrow> 'a list" where
  "arraySort comparefn xs = foldr (sortInsert comparefn) xs []"

text \<open>The events before the sort: deduplicated, then filtered by the query.\<close>

definition candidates :: "runtime \<Rightarrow> EventSource list \<Rightarrow> feeds \<Rightarrow> searchParams \<Rightarrow> WorldEvent list" where
  "candidates rt registry fetch ps =
     filterQuery rt (queryOf rt ps)
       (uniqueEvents (flattened rt fetch (selectSources registry (regionOf rt ps))))"

record Response =
  fetchedAt :: string
  events :: "WorldEvent list"
  sources :: "(string \<times> string \<times> string) list"

text \<open>\<open>GET\<close>, with the registry \<open>EVENT_SOURCES\<close>, the feeds and the clock reading of
  \<open>new Date()\<close> as parameters.\<close>

definition GET :: "runtime \<Rightarrow> EventSource list \<Rightarrow> feeds \<Rightarrow> int \<Rightarrow> searchParams \<Rightarrow> Response" where
  "GET rt registry fetch now ps =
     \<lparr> fetchedAt = toISOString rt now,
       events = take (nat (limitOf ps))
                  (arraySort (compareEvents rt) (candidates rt registry fetch ps)),
       sources = map (\<lambda>source. (srcId source, srcName source, srcHomepage source))
                   (selectSources registry (regionOf rt ps)) \<rparr>"

subsection \<open>A reference runtime for the concrete examples\<close>

text \<open>
  The general theorems below hold for every runtime. The examples are evaluated with this
  one: lower-casing of the ASCII letters, and dates in the full ECMAScript date-time
  format \<open>YYYY-MM-DDTHH:mm:ss.sssZ\<close> (the milliseconds optional) in the proleptic
  Gregorian calendar; every other string is an invalid date, which ECMAScript allows for
  strings outside its format.
\<close>

definition asciiLower :: "char \<Rightarrow> char" where
  "asciiLower c =
     (if 65 \<le> (of_char c :: nat) \<and> (of_char c :: nat) \<le> 90 then char_of (of_char c + 32 :: nat)
      else c)"

definition daysFromCivil :: "int \<Rightarrow> int \<Rightarrow> int \<Rightarrow> int" where
  "daysFromCivil y m d =
     (let y' = (if m \<le> 2 then y - 1 else y);
          era = y' div 400;
          yoe = y' - era * 400;
          doy = (153 * (if m > 2 then m - 3 else m + 9) + 2) div 5 + d - 1;
          doe = yoe * 365 + yoe div 4 - yoe div 100 + doy
      in era * 146097 + doe - 719468)"

definition daysInMonth :: "int \<Rightarrow> int \<Rightarrow> int" where
  "daysInMonth y m =
     (if m = 2 then (if y mod 4 = 0 \<and> (y mod 100 \<noteq> 0 \<or> y mod 400 = 0) then 29 else 28)
      else if m = 4 \<or> m = 6 \<or> m = 9 \<or> m = 11 then 30
      else 31)"

definition parseDigits :: "string \<Rightarrow> int option" where
  "parseDigits s = (if s \<noteq> [] \<and> list_all isDigit s then Some (digitsValue s) else None)"

definition refDateParse :: "string \<Rightarrow> int option" where
  "refDateParse s =
     (if (length s = 20 \<or> (length s = 24 \<and> s ! 19 = CHR ''.''))
         \<and> s ! 4 = CHR ''-'' \<and> s ! 7 = CHR ''-'' \<and> s ! 10 = CHR ''T''
         \<and> s ! 13 = CHR '':'' \<and> s ! 16 = CHR '':'' \<and> last s = CHR ''Z''
      then
        (case (parseDigits (take 4 s), parseDigits (take 2 (drop 5 s)),
               parseDigits (take 2 (drop 8 s)), parseDigits (take 2 (drop 11 s)),
               parseDigits (take 2 (drop 14 s)), parseDigits (take 2 (drop 17 s)),
               (if length s = 24 then parseDigits (take 3 (drop 20 s)) else Some 0)) of
           (Some y, Some mo, Some d, Some h, Some mi, Some sec, Some ms) \<Rightarrow>
             if 1 \<le> mo \<and> mo \<le> 12 \<and> 1 \<le> d \<and> d \<le> daysInMonth y mo
                \<and> h \<le> 23 \<and> mi \<le> 59 \<and> sec \<le> 59
             then Some (daysFromCivil y mo d * 86400000 + h * 3600000 + mi * 60000
                        + sec * 1000 + ms)
             else None
         | _ \<Rightarrow> None)
      else None)"

fun padDigits :: "nat \<Rightarrow> nat \<Rightarrow> string" where
  "padDigits 0 n = []"
| "padDigits (Suc w) n = padDigits w (n div 10) @ [char_of (48 + n mod 10)]"

definition refToISOString :: "int \<Rightarrow> string" where
  "refToISOString t =
     (let days = t div 86400000;
          msOfDay = nat (t mod 86400000);
          z = days + 719468;
          era = z div 146097;
          doe = z - era * 146097;
          yoe = (doe - doe div 1460 + doe div 36524 - doe div 146096) div 365;
          doy = doe - (365 * yoe + yoe div 4 - yoe div 100);
          mp = (5 * doy + 2) div 153;
          d = doy - (153 * mp + 2) div 5 + 1;
          m = (if mp < 10 then mp + 3 else mp - 9);
          y = yoe + era * 400 + (if m \<le> 2 then 1 else 0);
          year = (if 0 \<le> y \<and> y \<le> 9999 then padDigits 4 (nat y)
                  else (if y < 0 then ''-'' else ''+'') @ padDigits 6 (nat \<bar>y\<bar>))
      in year @ ''-'' @ padDigits 2 (nat m) @ ''-'' @ padDigits 2 (nat d) @ ''T''
         @ padDigits 2 (msOfDay div 3600000) @ '':''
         @ padDigits 2 (msOfDay div 60000 mod 60) @ '':''
         @ padDigits 2 (msOfDay div 1000 mod 60) @ ''.''
         @ padDigits 3 (msOfDay mod 1000) @ ''Z'')"

definition refRuntime :: runtime where
  "refRuntime = \<lparr> dateParse = refDateParse, toISOString = refToISOString,
                  toLowerCase = map asciiLower \<rparr>"

subsection \<open>Example data\<close>

text \<open>The example scenario of the specification: a European and an Asian source, each
  serving one item.\<close>

definition emptyItem :: RawItem where
  "emptyItem = \<lparr> link = None, title = None, isoDate = None, pubDate = None,
                 contentSnippet = None, content = None, enclosure = None,
                 mediaContent = None \<rparr>"

definition europeSource :: EventSource where
  "europeSource = \<lparr> srcId = ''s1'', srcName = ''Source One'', srcHomepage = ''https://a'',
                    srcFeed = ''https://a/feed'', srcRegions = [''europe''] \<rparr>"

definition asiaSource :: EventSource where
  "asiaSource = \<lparr> srcId = ''s2'', srcName = ''Source Two'', srcHomepage = ''https://b'',
                  srcFeed = ''https://b/feed'', srcRegions = [''asia''] \<rparr>"

definition summitItem :: RawItem where
  "summitItem = emptyItem \<lparr> link := Some ''https://a/1'', title := Some ''EU Summit'',
                             isoDate := Some ''2024-01-02T00:00:00.000Z'' \<rparr>"

definition tradeItem :: RawItem where
  "tradeItem = emptyItem \<lparr> link := Some ''https://b/2'', title := Some ''Asia Trade Talks'',
                            isoDate := Some ''2024-01-03T00:00:00.000Z'' \<rparr>"

definition summitEvent :: WorldEvent where
  "summitEvent = \<lparr> eventId = ''s1:aHR0cHM6Ly9hLzE'', eventTitle = ''EU Summit'', summary = [],
                   url = ''https://a/1'', sourceName = ''Source One'', sourceId = ''s1'',
                   sourceHomepage = ''https://a'', publishedAt = ''2024-01-02T00:00:00.000Z'',
                   regions = [''europe''], eventImage = None \<rparr>"

definition tradeEvent :: WorldEvent where
  "tradeEvent = \<lparr> eventId = ''s2:aHR0cHM6Ly9iLzI'', eventTitle = ''Asia Trade Talks'', summary = [],
                  url = ''https://b/2'', sourceName = ''Source Two'', sourceId = ''s2'',
                  sourceHomepage = ''https://b'', publishedAt = ''2024-01-03T00:00:00.000Z'',
                  regions = [''asia''], eventImage = None \<rparr>"

definition exampleRegistry :: "EventSource list" where
  "exampleRegistry = [europeSource, asiaSource]"

definition exampleFeeds :: feeds where
  "exampleFeeds address =
     (if address = ''https://a/feed'' then Inr (Some [summitItem])
      else if address = ''https://b/feed'' then Inr (Some [tradeItem])
      else Inl FetchError)"

text \<open>The image as the specification words it: the enclosure's URL when it matches the
  HTTP(S) pattern, otherwise the URL of the first entry of the media-content list whose
  URL matches the pattern.\<close>

definition specImage :: "RawItem \<Rightarrow> string option" where
  "specImage item =
     (let fromMedia =
            (case mediaContent item of
               None \<Rightarrow> None
             | Some entries \<Rightarrow>
                 (case find (\<lambda>m. case m of WithUrl (Some u) \<Rightarrow> isHttpUrl u | _ \<Rightarrow> False) entries of
                    Some (WithUrl (Some u)) \<Rightarrow> Some u
                  | _ \<Rightarrow> None))
      in case enclosure item of
           Some (Some u) \<Rightarrow> if isHttpUrl u then Some u else fromMedia
         | _ \<Rightarrow> fromMedia)"

text \<open>Variants of the first example item with images.\<close>

definition enclosureItem :: RawItem where
  "enclosureItem = summitItem \<lparr> enclosure := Some (Some ''https://cdn/e.png''),
                                 mediaContent := Some [WithUrl (Some ''https://cdn/b.png'')] \<rparr>"

definition mediaItem :: RawItem where
  "mediaItem = summitItem \<lparr> enclosure := Some (Some ''ftp://cdn/e.png''),
                             mediaContent := Some [WithoutUrl, WithUrl (Some ''https://cdn/b.png''),
                                                   WithUrl (Some ''https://cdn/c.png'')] \<rparr>"

definition ftpFirstItem :: RawItem where
  "ftpFirstItem = summitItem \<lparr> mediaContent := Some [WithUrl (Some ''ftp://cdn/a.png''),
                                                      WithUrl (Some ''https://cdn/b.png'')] \<rparr>"

text \<open>A second feed content: the Asian source also carries the item of the European
  source, under another title.\<close>

definition copyItem :: RawItem where
  "copyItem = summitItem \<lparr> title := Some ''Summit in Europe'' \<rparr>"

definition copyEvent :: WorldEvent where
  "copyEvent = \<lparr> eventId = ''s2:aHR0cHM6Ly9hLzE'', eventTitle = ''Summit in Europe'', summary = [],
                 url = ''https://a/1'', sourceName = ''Source Two'', sourceId = ''s2'',
                 sourceHomepage = ''https://b'', publishedAt = ''2024-01-02T00:00:00.000Z'',
                 regions = [''asia''], eventImage = None \<rparr>"

definition duplicateFeeds :: feeds where
  "duplicateFeeds address =
     (if address = ''https://a/feed'' then Inr (Some [summitItem])
      else if address = ''https://b/feed'' then Inr (Some [copyItem, tradeItem])
      else Inl FetchError)"

text \<open>A third feed content: the Asian source carries a second item, published at the
  instant of the European item.\<close>

definition tieItem :: RawItem where
  "tieItem = emptyItem \<lparr> link := Some ''https://b/3'', title := Some ''Monsoon'',
                          isoDate := Some ''2024-01-02T00:00:00.000Z'' \<rparr>"

definition tieEvent :: WorldEvent where
  "tieEvent = \<lparr> eventId = ''s2:aHR0cHM6Ly9iLzM'', eventTitle = ''Monsoon'', summary = [],
                url = ''https://b/3'', sourceName = ''Source Two'', sourceId = ''s2'',
                sourceHomepage = ''https://b'', publishedAt = ''2024-01-02T00:00:00.000Z'',
                regions = [''asia''], eventImage = None \<rparr>"

definition tieFeeds :: feeds where
  "tieFeeds address =
     (if address = ''https://a/feed'' then Inr (Some [summitItem])
      else if address = ''https://b/feed'' then Inr (Some [tradeItem, tieItem])
      else Inl FetchError)"

text \<open>The source selection as the specification words it: all sources when the region is
  absent or equals \<open>global\<close>, otherwise the sources whose region set contains the region,
  compared without regard to case.\<close>

definition specSelectSources :: "runtime \<Rightarrow> EventSource list \<Rightarrow> string option \<Rightarrow> EventSource list" where
  "specSelectSources rt registry region =
     (case region of
        None \<Rightarrow> registry
      | Some r \<Rightarrow>
          if r = ''global'' then registry
          else filter (\<lambda>source. toLowerCase rt r \<in> set (map (toLowerCase rt) (srcRegions source)))
                 registry)"


definition badDateItem :: RawItem where
  "badDateItem = emptyItem \<lparr> link := Some ''https://a/0'', title := Some ''Undated'',
                              pubDate := Some ''not a date'' \<rparr>"

definition badDateFeeds :: feeds where
  "badDateFeeds address =
     (if address = ''https://a/feed'' then Inr (Some [badDateItem, summitItem])
      else if address = ''https://b/feed'' then Inr (Some [tradeItem])
      else Inl FetchError)"

text \<open>A fourth feed content: the first item of the Asian source has an \<open>isoDate\<close> that is
  not a date.\<close>

definition garbledItem :: RawItem where
  "garbledItem = emptyItem \<lparr> link := Some ''https://b/0'', title := Some ''Garbled'',
                              isoDate := Some ''not a date'' \<rparr>"

definition garbledEvent :: WorldEvent where
  "garbledEvent = \<lparr> eventId = ''s2:aHR0cHM6Ly9iLzA'', eventTitle = ''Garbled'', summary = [],
                    url = ''https://b/0'', sourceName = ''Source Two'', sourceId = ''s2'',
                    sourceHomepage = ''https://b'', publishedAt = ''not a date'',
                    regions = [''asia''], eventImage = None \<rparr>"

definition garbledFeeds :: feeds where
  "garbledFeeds address =
     (if address = ''https://a/feed'' then Inr (Some [summitItem])
      else if address = ''https://b/feed'' then Inr (Some [garbledItem, tradeItem])
      else Inl FetchError)"

text \<open>A feed of twelve items of the European source, with the links \<open>https://a/a\<close> to
  \<open>https://a/l\<close>.\<close>

definition bulletinItem :: "char \<Rightarrow> RawItem" where
  "bulletinItem c = emptyItem \<lparr> link := Some (''https://a/'' @ [c]), title := Some ''Bulletin'',
                                 isoDate := Some ''2024-01-02T00:00:00.000Z'' \<rparr>"

definition bulletinEvent :: "char \<Rightarrow> WorldEvent" where
  "bulletinEvent c = \<lparr> eventId = ''s1:'' @ base64url (''https://a/'' @ [c]),
                       eventTitle = ''Bulletin'', summary = [], url = ''https://a/'' @ [c],
                       sourceName = ''Source One'', sourceId = ''s1'',
                       sourceHomepage = ''https://a'',
                       publishedAt = ''2024-01-02T00:00:00.000Z'',
                       regions = [''europe''], eventImage = None \<rparr>"

definition bulletinLetters :: string where
  "bulletinLetters = ''abcdefghijkl''"

definition bulletinFeeds :: feeds where
  "bulletinFeeds address =
     (if address = ''https://a/feed'' then Inr (Some (map bulletinItem bulletinLetters))
      else Inl FetchError)"

text \<open>A \<open>limit\<close> value of a minus sign and 400 nines.\<close>

definition hugeNegativeLimit :: string where
  "hugeNegativeLimit = CHR ''-'' # replicate 400 (CHR ''9'')"

text \<open>A registry whose only source has a capitalised region tag, and the region ids that
  the front end offers (\<open>REGION_OPTIONS\<close> of the page), which it sends as the \<open>region\<close>
  parameter.\<close>

definition capitalRegistry :: "EventSource list" where
  "capitalRegistry = [europeSource \<lparr> srcRegions := [''Europe''] \<rparr>]"

definition regionOptionIds :: "string list" where
  "regionOptionIds = [''global'', ''americas'', ''europe'', ''asia'', ''middle-east'', ''africa'']"

text \<open>The limit as the specification words it: 60 when the parameter is absent or
  non-numeric, and otherwise the value it parses to, clamped up to 10.\<close>

definition specLimit :: "searchParams \<Rightarrow> int" where
  "specLimit ps =
     (case getParam ps ''limit'' of
        None \<Rightarrow> 60
      | Some str \<Rightarrow>
          (let s = trimStart str;
               negative = (s \<noteq> [] \<and> hd s = CHR ''-'');
               body = (if s \<noteq> [] \<and> (hd s = CHR ''+'' \<or> hd s = CHR ''-'') then tl s else s);
               z = takeWhile isDigit body
           in if z = [] then 60
              else max (if negative then - digitsValue z else digitsValue z) 10))"

section \<open>Properties\<close>

subsection \<open>base64url is injective\<close>












subsection \<open>The example scenario\<close>

lemma trim_summit_title: "trim ''EU Summit'' = ''EU Summit''" by code_simp
lemma base64url_summit_url: "base64url ''https://a/1'' = ''aHR0cHM6Ly9hLzE''" by code_simp
lemma trim_trade_title: "trim ''Asia Trade Talks'' = ''Asia Trade Talks''" by code_simp
lemma base64url_trade_url: "base64url ''https://b/2'' = ''aHR0cHM6Ly9iLzI''" by code_simp

lemma normalize_summitItem: "normalizeEvent refRuntime europeSource summitItem = Inr (Some summitEvent)"
  by (simp add: normalizeEvent_def summitItem_def emptyItem_def europeSource_def summitEvent_def
      truthy_def trim_summit_title base64url_summit_url sanitizeSummary_def resolveImage_def enclosureImage_def mediaImage_def
      del: base64url.simps)

lemma normalize_tradeItem: "normalizeEvent refRuntime asiaSource tradeItem = Inr (Some tradeEvent)"
  by (simp add: normalizeEvent_def tradeItem_def emptyItem_def asiaSource_def tradeEvent_def
      truthy_def trim_trade_title base64url_trade_url sanitizeSummary_def resolveImage_def enclosureImage_def mediaImage_def
      del: base64url.simps)

subsection \<open>The fields of a normalized event\<close>

lemma normalizeEvent_fields:
  assumes "normalizeEvent rt source item = Inr (Some e)"
  shows "eventId e = srcId source @ '':'' @ base64url (url e)"
    and "link item = Some (url e)"
    and "url e \<noteq> []"
    and "sourceId e = srcId source"
    and "sourceName e = srcName source"
    and "sourceHomepage e = srcHomepage source"
    and "regions e = srcRegions source"
    and "eventImage e = resolveImage item"
  using assms
  by (auto simp: normalizeEvent_def Let_def split: sum.splits if_splits option.splits)

lemma normalizeEvent_publishedAt:
  assumes "normalizeEvent rt source item = Inr (Some e)"
  shows "isoDate item = Some (publishedAt e)
       \<or> (\<exists>p ms. isoDate item = None \<and> pubDate item = Some p \<and> dateParse rt p = Some ms
                 \<and> publishedAt e = toISOString rt ms)"
  using assms
  by (auto simp: normalizeEvent_def Let_def truthy_def split: sum.splits if_splits option.splits)

subsection \<open>The event id\<close>



subsection \<open>The limit\<close>

lemma limitOf_ge_10: "10 \<le> limitOf ps"
  by (simp add: limitOf_def split: number.splits)

lemma length_events_GET: "int (length (events (GET rt registry fetch now ps))) \<le> limitOf ps"
proof -
  have "0 \<le> limitOf ps" using limitOf_ge_10 [of ps] by simp
  then show ?thesis by (simp add: GET_def)
qed

lemma parseInt10_0: "parseInt10 ''0'' = Finite 0" by code_simp
lemma parseInt10_5: "parseInt10 ''5'' = Finite 5" by code_simp
lemma parseInt10_abc: "parseInt10 ''abc'' = NaN" by code_simp
lemma parseInt10_empty: "parseInt10 [] = NaN" by code_simp

subsection \<open>The image\<close>

lemma isHttpUrl_prefix: "isHttpUrl u \<longleftrightarrow> prefix ''http://'' u \<or> prefix ''https://'' u"
proof -
  have p: "\<And>p. prefix p u \<longleftrightarrow> take (length p) u = p"
    by (metis append_eq_conv_conj prefix_def)
  have "length ''http://'' = 7" "length ''https://'' = 8" by simp_all
  with p [of "''http://''"] p [of "''https://''"]
  have "prefix ''http://'' u \<longleftrightarrow> take 7 u = ''http://''"
    "prefix ''https://'' u \<longleftrightarrow> take 8 u = ''https://''"
    by (simp_all only:)
  then show ?thesis by (simp only: isHttpUrl_def)
qed

lemma isHttpUrl_nonempty: "isHttpUrl u \<Longrightarrow> u \<noteq> []"
  by (auto simp: isHttpUrl_def)

lemma find_first_with_url:
  assumes "\<forall>m \<in> set pre. m = WithoutUrl"
  shows "find (\<lambda>m. m \<noteq> WithoutUrl) (pre @ WithUrl v # post) = Some (WithUrl v)"
  using assms by (induction pre) simp_all

lemma find_no_url:
  assumes "\<forall>m \<in> set entries. m = WithoutUrl"
  shows "find (\<lambda>m. m \<noteq> WithoutUrl) entries = None"
  using assms by (induction entries) simp_all

text \<open>
  C9, as amended. For every item that normalizes to an event: when the enclosure has a
  URL that matches the HTTP(S) pattern, that URL is the event's image; otherwise, when
  the media-content list has an entry with a \<open>url\<close> key, the first such entry alone
  decides: its URL is the image when it matches the pattern, and the image is unset when
  it does not (later entries are not tried); otherwise the image is unset. Whenever the
  image is set it starts with \<open>http://\<close> or \<open>https://\<close>.
\<close>

theorem image_resolution_order:
  assumes norm: "normalizeEvent rt source item = Inr (Some e)"
  shows "(\<forall>u. enclosure item = Some (Some u) \<and> isHttpUrl u \<longrightarrow> eventImage e = Some u)
   \<and> (\<forall>pre v post.
         \<not> (\<exists>u. enclosure item = Some (Some u) \<and> isHttpUrl u)
         \<and> mediaContent item = Some (pre @ WithUrl v # post) \<and> (\<forall>m \<in> set pre. m = WithoutUrl)
         \<longrightarrow> eventImage e = (case v of Some u \<Rightarrow> if isHttpUrl u then Some u else None | None \<Rightarrow> None))
   \<and> (\<not> (\<exists>u. enclosure item = Some (Some u) \<and> isHttpUrl u)
         \<and> (mediaContent item = None
             \<or> (\<exists>entries. mediaContent item = Some entries \<and> (\<forall>m \<in> set entries. m = WithoutUrl)))
         \<longrightarrow> eventImage e = None)
   \<and> (\<forall>u. eventImage e = Some u \<longrightarrow> prefix ''http://'' u \<or> prefix ''https://'' u)"
proof -
  have img: "eventImage e = resolveImage item" by (rule normalizeEvent_fields(8) [OF norm])
  have c1: "\<forall>u. enclosure item = Some (Some u) \<and> isHttpUrl u \<longrightarrow> resolveImage item = Some u"
    by (auto simp: resolveImage_def enclosureImage_def dest: isHttpUrl_nonempty)
  have noenc: "\<not> (\<exists>u. enclosure item = Some (Some u) \<and> isHttpUrl u) \<Longrightarrow> enclosureImage item = None"
    by (auto simp: enclosureImage_def split: option.splits)
  have c2: "\<forall>pre v post.
         \<not> (\<exists>u. enclosure item = Some (Some u) \<and> isHttpUrl u)
         \<and> mediaContent item = Some (pre @ WithUrl v # post) \<and> (\<forall>m \<in> set pre. m = WithoutUrl)
         \<longrightarrow> resolveImage item = (case v of Some u \<Rightarrow> if isHttpUrl u then Some u else None | None \<Rightarrow> None)"
  proof (intro allI impI, elim conjE)
    fix pre v post
    assume a: "\<not> (\<exists>u. enclosure item = Some (Some u) \<and> isHttpUrl u)"
      and b: "mediaContent item = Some (pre @ WithUrl v # post)"
      and c: "\<forall>m \<in> set pre. m = WithoutUrl"
    show "resolveImage item = (case v of Some u \<Rightarrow> if isHttpUrl u then Some u else None | None \<Rightarrow> None)"
      using noenc [OF a] b find_first_with_url [OF c, of v post]
      by (auto simp: resolveImage_def mediaImage_def split: option.splits dest: isHttpUrl_nonempty)
  qed
  have c3: "\<not> (\<exists>u. enclosure item = Some (Some u) \<and> isHttpUrl u)
         \<and> (mediaContent item = None
             \<or> (\<exists>entries. mediaContent item = Some entries \<and> (\<forall>m \<in> set entries. m = WithoutUrl)))
         \<longrightarrow> resolveImage item = None"
  proof (intro impI, elim conjE)
    assume a: "\<not> (\<exists>u. enclosure item = Some (Some u) \<and> isHttpUrl u)"
      and b: "mediaContent item = None
             \<or> (\<exists>entries. mediaContent item = Some entries \<and> (\<forall>m \<in> set entries. m = WithoutUrl))"
    from b show "resolveImage item = None"
    proof
      assume "mediaContent item = None"
      then show ?thesis using noenc [OF a] by (simp add: resolveImage_def mediaImage_def)
    next
      assume "\<exists>entries. mediaContent item = Some entries \<and> (\<forall>m \<in> set entries. m = WithoutUrl)"
      then obtain entries where "mediaContent item = Some entries" "\<forall>m \<in> set entries. m = WithoutUrl"
        by blast
      then show ?thesis using noenc [OF a] find_no_url [of entries]
        by (simp add: resolveImage_def mediaImage_def)
    qed
  qed
  have c4: "\<forall>u. resolveImage item = Some u \<longrightarrow> prefix ''http://'' u \<or> prefix ''https://'' u"
    unfolding isHttpUrl_prefix [symmetric]
    by (auto simp: resolveImage_def enclosureImage_def mediaImage_def
        split: option.splits if_splits mediaEntry.splits)
  show ?thesis unfolding img using c1 c2 c3 c4 by blast
qed

lemma normalize_enclosureItem:
  "normalizeEvent refRuntime europeSource enclosureItem
     = Inr (Some (summitEvent \<lparr> eventImage := Some ''https://cdn/e.png'' \<rparr>))"
  by (simp add: normalizeEvent_def enclosureItem_def summitItem_def emptyItem_def europeSource_def
      summitEvent_def truthy_def trim_summit_title base64url_summit_url sanitizeSummary_def
      resolveImage_def enclosureImage_def mediaImage_def isHttpUrl_def
      del: base64url.simps)

lemma normalize_mediaItem:
  "normalizeEvent refRuntime europeSource mediaItem
     = Inr (Some (summitEvent \<lparr> eventImage := Some ''https://cdn/b.png'' \<rparr>))"
  by (simp add: normalizeEvent_def mediaItem_def summitItem_def emptyItem_def europeSource_def
      summitEvent_def truthy_def trim_summit_title base64url_summit_url sanitizeSummary_def
      resolveImage_def enclosureImage_def mediaImage_def isHttpUrl_def
      del: base64url.simps)

lemma normalize_ftpFirstItem:
  "normalizeEvent refRuntime europeSource ftpFirstItem = Inr (Some summitEvent)"
  by (simp add: normalizeEvent_def ftpFirstItem_def summitItem_def emptyItem_def europeSource_def
      summitEvent_def truthy_def trim_summit_title base64url_summit_url sanitizeSummary_def
      resolveImage_def enclosureImage_def mediaImage_def isHttpUrl_def
      del: base64url.simps)

theorem image_resolution_order_witness:
  "normalizeEvent refRuntime europeSource enclosureItem
     = Inr (Some (summitEvent \<lparr> eventImage := Some ''https://cdn/e.png'' \<rparr>))
   \<and> enclosure enclosureItem = Some (Some ''https://cdn/e.png'') \<and> isHttpUrl ''https://cdn/e.png''
   \<and> eventImage (summitEvent \<lparr> eventImage := Some ''https://cdn/e.png'' \<rparr>) = Some ''https://cdn/e.png''
   \<and> normalizeEvent refRuntime europeSource mediaItem
     = Inr (Some (summitEvent \<lparr> eventImage := Some ''https://cdn/b.png'' \<rparr>))
   \<and> mediaContent mediaItem = Some ([WithoutUrl] @ WithUrl (Some ''https://cdn/b.png'')
                                       # [WithUrl (Some ''https://cdn/c.png'')])
   \<and> prefix ''https://'' ''https://cdn/b.png''
   \<and> normalizeEvent refRuntime europeSource summitItem = Inr (Some summitEvent)
   \<and> mediaContent summitItem = None \<and> eventImage summitEvent = None"
  using image_resolution_order [OF normalize_enclosureItem]
    image_resolution_order [OF normalize_mediaItem]
    image_resolution_order [OF normalize_summitItem]
    normalize_enclosureItem normalize_mediaItem normalize_summitItem
  by (simp add: enclosureItem_def mediaItem_def summitItem_def emptyItem_def summitEvent_def
      isHttpUrl_def)

text \<open>
  C9 as stated fails: with a media-content list whose first entry has an FTP URL and whose
  second entry has an HTTPS URL, the first entry whose URL matches the pattern is the
  second, but the event has no image.
\<close>

theorem image_first_matching_entry_counterexample:
  "normalizeEvent refRuntime europeSource ftpFirstItem = Inr (Some summitEvent)
   \<and> eventImage summitEvent = None
   \<and> specImage ftpFirstItem = Some ''https://cdn/b.png''"
  using normalize_ftpFirstItem
  by (simp add: summitEvent_def specImage_def ftpFirstItem_def summitItem_def emptyItem_def
      isHttpUrl_def)

subsection \<open>Deduplication\<close>

lemma uniqueLoop_keys:
  "set (map fst (uniqueLoop m evs)) = set (map fst m) \<union> url ` set evs"
  by (induction m evs rule: uniqueLoop.induct) auto

lemma uniqueLoop_distinct:
  "distinct (map fst m) \<Longrightarrow> distinct (map fst (uniqueLoop m evs))"
  by (induction m evs rule: uniqueLoop.induct) auto

lemma uniqueLoop_first:
  assumes "(k, e) \<in> set (uniqueLoop m evs)"
  shows "(k, e) \<in> set m \<or> (k \<notin> set (map fst m) \<and> url e = k \<and> find (\<lambda>x. url x = k) evs = Some e)"
  using assms
proof (induction m evs rule: uniqueLoop.induct)
  case (1 unique)
  then show ?case by simp
next
  case (2 unique event rest)
  show ?case
  proof (cases "url event \<in> set (map fst unique)")
    case True
    with 2 have "(k, e) \<in> set unique
        \<or> (k \<notin> set (map fst unique) \<and> url e = k \<and> find (\<lambda>x. url x = k) rest = Some e)"
      by simp
    with True show ?thesis by auto
  next
    case False
    with 2 have "(k, e) \<in> set (unique @ [(url event, event)])
        \<or> (k \<notin> set (map fst (unique @ [(url event, event)])) \<and> url e = k
            \<and> find (\<lambda>x. url x = k) rest = Some e)"
      by simp
    with False show ?thesis by auto
  qed
qed

lemma uniqueLoop_snd_url:
  assumes "\<forall>(k, e) \<in> set m. url e = k"
  shows "map url (map snd (uniqueLoop m evs)) = map fst (uniqueLoop m evs)"
  using assms
proof (induction m evs rule: uniqueLoop.induct)
  case (1 unique)
  then show ?case by (induction unique) auto
next
  case (2 unique event rest)
  then show ?case by auto
qed

lemma uniqueEvents_distinct: "distinct (map url (uniqueEvents evs))"
proof -
  have "map url (uniqueEvents evs) = map fst (uniqueLoop [] evs)"
    unfolding uniqueEvents_def by (rule uniqueLoop_snd_url) simp
  moreover have "distinct (map fst (uniqueLoop [] evs))"
    by (rule uniqueLoop_distinct) simp
  ultimately show ?thesis by (simp only:)
qed

lemma uniqueEvents_urls: "url ` set (uniqueEvents evs) = url ` set evs"
proof -
  have "map url (uniqueEvents evs) = map fst (uniqueLoop [] evs)"
    unfolding uniqueEvents_def by (rule uniqueLoop_snd_url) simp
  then have "set (map url (uniqueEvents evs)) = url ` set evs"
    using uniqueLoop_keys [of "[]" evs] by simp
  then show ?thesis by simp
qed

lemma uniqueEvents_first:
  assumes "e \<in> set (uniqueEvents evs)"
  shows "find (\<lambda>x. url x = url e) evs = Some e"
proof -
  from assms obtain k where "(k, e) \<in> set (uniqueLoop [] evs)"
    by (auto simp: uniqueEvents_def)
  from uniqueLoop_first [OF this] show ?thesis by auto
qed

lemma find_Some_mem: "find P xs = Some x \<Longrightarrow> x \<in> set xs"
  by (induction xs) (auto split: if_splits)

lemma uniqueEvents_subset: "set (uniqueEvents evs) \<subseteq> set evs"
  using uniqueEvents_first find_Some_mem by fastforce

subsection \<open>The sort is a permutation\<close>

lemma set_sortInsert: "set (sortInsert c x ys) = insert x (set ys)"
  by (induction ys) auto

lemma set_arraySort: "set (arraySort c xs) = set xs"
  unfolding arraySort_def by (induction xs) (simp_all add: set_sortInsert)

lemma distinct_map_sortInsert:
  "distinct (map f (sortInsert c x ys)) \<longleftrightarrow> f x \<notin> f ` set ys \<and> distinct (map f ys)"
  by (induction ys) (auto simp: set_sortInsert)

lemma distinct_map_arraySort: "distinct (map f (arraySort c xs)) \<longleftrightarrow> distinct (map f xs)"
  unfolding arraySort_def
  by (induction xs) (simp_all add: distinct_map_sortInsert set_arraySort [unfolded arraySort_def])

subsection \<open>Where the returned events come from\<close>

lemma set_filterQuery: "set (filterQuery rt q evs) \<subseteq> set evs"
  by (auto simp: filterQuery_def)

lemma distinct_filterQuery: "distinct (map f evs) \<Longrightarrow> distinct (map f (filterQuery rt q evs))"
  by (simp add: filterQuery_def distinct_map_filter)

lemma set_candidates:
  "set (candidates rt registry fetch ps)
     \<subseteq> set (uniqueEvents (flattened rt fetch (selectSources registry (regionOf rt ps))))"
  unfolding candidates_def by (rule set_filterQuery)

lemma set_events_GET:
  "set (events (GET rt registry fetch now ps)) \<subseteq> set (candidates rt registry fetch ps)"
proof -
  have "set (events (GET rt registry fetch now ps))
      \<subseteq> set (arraySort (compareEvents rt) (candidates rt registry fetch ps))"
    by (simp add: GET_def set_take_subset)
  then show ?thesis by (simp only: set_arraySort)
qed

lemma distinct_urls_GET: "distinct (map url (events (GET rt registry fetch now ps)))"
proof -
  have "distinct (map url (candidates rt registry fetch ps))"
    unfolding candidates_def by (intro distinct_filterQuery uniqueEvents_distinct)
  then have "distinct (map url (arraySort (compareEvents rt) (candidates rt registry fetch ps)))"
    by (simp only: distinct_map_arraySort)
  then have "distinct (take (nat (limitOf ps))
      (map url (arraySort (compareEvents rt) (candidates rt registry fetch ps))))"
    by (rule distinct_take)
  then show ?thesis by (simp add: GET_def take_map)
qed

text \<open>
  C3. The URLs of the returned events are pairwise different, and every returned event is
  the first event with its URL in the flattened sequence (the sequence in registry order,
  then feed order). The deduplication itself keeps one event for every URL of the
  flattened sequence, namely the first.
\<close>

theorem url_unique_first_seen_wins:
  "distinct (map url (events (GET rt registry fetch now ps)))
   \<and> (\<forall>e \<in> set (events (GET rt registry fetch now ps)).
        find (\<lambda>x. url x = url e) (flattened rt fetch (selectSources registry (regionOf rt ps)))
          = Some e)
   \<and> (let flat = flattened rt fetch (selectSources registry (regionOf rt ps)) in
        distinct (map url (uniqueEvents flat))
        \<and> url ` set (uniqueEvents flat) = url ` set flat
        \<and> (\<forall>e \<in> set (uniqueEvents flat). find (\<lambda>x. url x = url e) flat = Some e))"
proof (intro conjI ballI)
  show "distinct (map url (events (GET rt registry fetch now ps)))"
    by (rule distinct_urls_GET)
next
  fix e assume "e \<in> set (events (GET rt registry fetch now ps))"
  then have "e \<in> set (uniqueEvents (flattened rt fetch (selectSources registry (regionOf rt ps))))"
    using set_events_GET set_candidates by blast
  then show "find (\<lambda>x. url x = url e) (flattened rt fetch (selectSources registry (regionOf rt ps)))
          = Some e"
    by (rule uniqueEvents_first)
next
  show "let flat = flattened rt fetch (selectSources registry (regionOf rt ps)) in
        distinct (map url (uniqueEvents flat))
        \<and> url ` set (uniqueEvents flat) = url ` set flat
        \<and> (\<forall>e \<in> set (uniqueEvents flat). find (\<lambda>x. url x = url e) flat = Some e)"
    unfolding Let_def
    using uniqueEvents_distinct uniqueEvents_urls uniqueEvents_first by blast
qed

subsection \<open>The pipeline on the example feeds\<close>

lemma trim_copy_title: "trim ''Summit in Europe'' = ''Summit in Europe''" by code_simp

lemma normalize_copyItem: "normalizeEvent refRuntime asiaSource copyItem = Inr (Some copyEvent)"
  by (simp add: normalizeEvent_def copyItem_def summitItem_def emptyItem_def asiaSource_def
      copyEvent_def truthy_def trim_copy_title base64url_summit_url sanitizeSummary_def
      resolveImage_def enclosureImage_def mediaImage_def
      del: base64url.simps)

lemma srcFeed_examples:
  "srcFeed europeSource = ''https://a/feed''" "srcFeed asiaSource = ''https://b/feed''"
  by (simp_all add: europeSource_def asiaSource_def)

lemma sourceEvents_examples:
  "sourceEvents refRuntime exampleFeeds europeSource = [summitEvent]"
  "sourceEvents refRuntime exampleFeeds asiaSource = [tradeEvent]"
  "sourceEvents refRuntime duplicateFeeds europeSource = [summitEvent]"
  "sourceEvents refRuntime duplicateFeeds asiaSource = [copyEvent, tradeEvent]"
  by (simp_all add: sourceEvents_def exampleFeeds_def duplicateFeeds_def srcFeed_examples
      normalize_summitItem normalize_tradeItem normalize_copyItem)

lemma regionOf_absent: "regionOf rt [] = ''global''"
  by (simp add: regionOf_def getParam_def truthy_def)

lemma queryOf_absent: "queryOf rt [] = None"
  by (simp add: queryOf_def getParam_def)

lemma limitOf_absent: "limitOf [] = 60"
  by (simp add: limitOf_def getParam_def parseInt10_empty)

lemma flattened_examples:
  "flattened refRuntime exampleFeeds exampleRegistry = [summitEvent, tradeEvent]"
  "flattened refRuntime duplicateFeeds exampleRegistry = [summitEvent, copyEvent, tradeEvent]"
  by (simp_all add: flattened_def exampleRegistry_def sourceEvents_examples)

lemma url_examples:
  "url summitEvent = ''https://a/1''" "url copyEvent = ''https://a/1''"
  "url tradeEvent = ''https://b/2''"
  by (simp_all add: summitEvent_def copyEvent_def tradeEvent_def)

lemma uniqueEvents_examples:
  "uniqueEvents [summitEvent, tradeEvent] = [summitEvent, tradeEvent]"
  "uniqueEvents [summitEvent, copyEvent, tradeEvent] = [summitEvent, tradeEvent]"
  by (simp_all add: uniqueEvents_def url_examples)

lemma refDateParse_examples:
  "refDateParse ''2024-01-02T00:00:00.000Z'' = Some 1704153600000"
  "refDateParse ''2024-01-03T00:00:00.000Z'' = Some 1704240000000"
  by code_simp+

lemma refDateParse_not_a_date: "refDateParse ''not a date'' = None"
  by code_simp

lemma dateParse_examples:
  "dateParse refRuntime (publishedAt summitEvent) = Some 1704153600000"
  "dateParse refRuntime (publishedAt copyEvent) = Some 1704153600000"
  "dateParse refRuntime (publishedAt tradeEvent) = Some 1704240000000"
  by (simp_all add: refRuntime_def summitEvent_def copyEvent_def tradeEvent_def
      refDateParse_examples)

lemma arraySort_example:
  "arraySort (compareEvents refRuntime) [summitEvent, tradeEvent] = [tradeEvent, summitEvent]"
  by (simp add: arraySort_def sortCompare_def compareEvents_def dateParse_examples)

lemma GET_examples:
  "events (GET refRuntime exampleRegistry exampleFeeds now []) = [tradeEvent, summitEvent]"
  "events (GET refRuntime exampleRegistry duplicateFeeds now []) = [tradeEvent, summitEvent]"
  by (simp_all add: GET_def candidates_def regionOf_absent queryOf_absent limitOf_absent
      selectSources_def flattened_examples uniqueEvents_examples filterQuery_def truthy_def
      arraySort_example)

theorem url_unique_first_seen_wins_witness:
  "events (GET refRuntime exampleRegistry duplicateFeeds 0 []) = [tradeEvent, summitEvent]
   \<and> flattened refRuntime duplicateFeeds (selectSources exampleRegistry (regionOf refRuntime []))
       = [summitEvent, copyEvent, tradeEvent]
   \<and> url copyEvent = url summitEvent
   \<and> find (\<lambda>x. url x = url summitEvent) [summitEvent, copyEvent, tradeEvent] = Some summitEvent
   \<and> distinct (map url [tradeEvent, summitEvent])"
  using url_unique_first_seen_wins [of refRuntime exampleRegistry duplicateFeeds 0 "[]"]
  by (simp add: GET_examples regionOf_absent selectSources_def flattened_examples url_examples)

subsection \<open>Events and their sources\<close>

lemma mapNormalize_Inr:
  assumes "mapNormalize rt source its = Inr rs" and "Some e \<in> set rs"
  shows "\<exists>item \<in> set its. normalizeEvent rt source item = Inr (Some e)"
  using assms
proof (induction its arbitrary: rs)
  case Nil
  then show ?case by simp
next
  case (Cons item rest)
  then show ?case by (auto split: sum.splits)
qed

lemma sourceEvents_normalized:
  assumes "e \<in> set (sourceEvents rt fetch source)"
  shows "\<exists>its item. fetch (srcFeed source) = Inr its
           \<and> item \<in> set (case its of None \<Rightarrow> [] | Some l \<Rightarrow> l)
           \<and> normalizeEvent rt source item = Inr (Some e)"
proof (cases "fetch (srcFeed source)")
  case (Inl err)
  with assms show ?thesis by (simp add: sourceEvents_def)
next
  case (Inr its)
  show ?thesis
  proof (cases "mapNormalize rt source (case its of None \<Rightarrow> [] | Some l \<Rightarrow> l)")
    case (Inl err)
    with Inr assms show ?thesis by (simp add: sourceEvents_def)
  next
    case inr: (Inr rs)
    with Inr assms have "Some e \<in> set rs" by (auto simp: sourceEvents_def)
    from mapNormalize_Inr [OF inr this] Inr show ?thesis by blast
  qed
qed

lemma sourceEvents_regions:
  assumes "e \<in> set (sourceEvents rt fetch source)"
  shows "regions e = srcRegions source"
proof -
  from sourceEvents_normalized [OF assms] obtain item
    where "normalizeEvent rt source item = Inr (Some e)" by blast
  then show ?thesis by (rule normalizeEvent_fields(7))
qed

lemma flattened_regions:
  assumes "e \<in> set (flattened rt fetch srcs)"
  shows "\<exists>source \<in> set srcs. regions e = srcRegions source"
  using assms sourceEvents_regions by (fastforce simp: flattened_def)

lemma events_GET_from_selected:
  assumes "e \<in> set (events (GET rt registry fetch now ps))"
  shows "\<exists>source \<in> set (selectSources registry (regionOf rt ps)). regions e = srcRegions source"
proof -
  from assms have "e \<in> set (flattened rt fetch (selectSources registry (regionOf rt ps)))"
    using set_events_GET set_candidates uniqueEvents_subset by blast
  then show ?thesis by (rule flattened_regions)
qed

subsection \<open>The sort\<close>

text \<open>The key the comparator orders by, when every date is valid: the negated time
  value.\<close>

lemma sortInsert_insort_key:
  assumes "\<forall>e \<in> set (x # ys). dateParse rt (publishedAt e) \<noteq> None"
  shows "sortInsert (compareEvents rt) x ys
       = insort_key (\<lambda>e. - the (dateParse rt (publishedAt e))) x ys"
  using assms
  by (induction ys) (auto simp: sortCompare_def compareEvents_def)

lemma arraySort_sort_key:
  assumes "\<forall>e \<in> set xs. dateParse rt (publishedAt e) \<noteq> None"
  shows "arraySort (compareEvents rt) xs = sort_key (\<lambda>e. - the (dateParse rt (publishedAt e))) xs"
  using assms
proof (induction xs)
  case Nil
  then show ?case by (simp add: arraySort_def)
next
  case (Cons x xs)
  then have ih: "arraySort (compareEvents rt) xs
      = sort_key (\<lambda>e. - the (dateParse rt (publishedAt e))) xs"
    by simp
  have "\<forall>e \<in> set (x # arraySort (compareEvents rt) xs). dateParse rt (publishedAt e) \<noteq> None"
    using Cons.prems by (simp add: set_arraySort)
  from sortInsert_insort_key [OF this]
  have "arraySort (compareEvents rt) (x # xs)
      = insort_key (\<lambda>e. - the (dateParse rt (publishedAt e))) x (arraySort (compareEvents rt) xs)"
    by (simp add: arraySort_def)
  then show ?case by (simp add: ih sort_key_def)
qed

lemma arraySort_descending:
  assumes "\<forall>e \<in> set xs. dateParse rt (publishedAt e) \<noteq> None"
  shows "sorted_wrt (\<lambda>a b. the (dateParse rt (publishedAt a)) \<ge> the (dateParse rt (publishedAt b)))
           (arraySort (compareEvents rt) xs)"
proof -
  have "sorted (map (\<lambda>e. - the (dateParse rt (publishedAt e)))
                  (sort_key (\<lambda>e. - the (dateParse rt (publishedAt e))) xs))"
    by (rule sorted_sort_key)
  then show ?thesis
    unfolding arraySort_sort_key [OF assms] by (simp add: sorted_map)
qed

lemma arraySort_stable:
  assumes "\<forall>e \<in> set xs. dateParse rt (publishedAt e) \<noteq> None"
  shows "filter (\<lambda>e. dateParse rt (publishedAt e) = Some t) (arraySort (compareEvents rt) xs)
       = filter (\<lambda>e. dateParse rt (publishedAt e) = Some t) xs"
proof -
  let ?key = "\<lambda>e. - the (dateParse rt (publishedAt e))"
  have same: "(dateParse rt (publishedAt e) = Some t) = (?key e = - t)" if "e \<in> set xs" for e
    using assms that by auto
  have "filter (\<lambda>e. dateParse rt (publishedAt e) = Some t) (sort_key ?key xs)
      = filter (\<lambda>e. ?key e = - t) (sort_key ?key xs)"
    by (rule filter_cong) (simp_all add: same)
  also have "\<dots> = filter (\<lambda>e. ?key e = - t) xs"
    by (rule sort_key_stable)
  also have "\<dots> = filter (\<lambda>e. dateParse rt (publishedAt e) = Some t) xs"
    by (rule filter_cong) (simp_all add: same)
  finally show ?thesis unfolding arraySort_sort_key [OF assms] .
qed

lemma prefix_filter_take: "prefix (filter P (take n xs)) (filter P xs)"
proof -
  have "filter P xs = filter P (take n xs) @ filter P (drop n xs)"
    by (metis append_take_drop_id filter_append)
  then show ?thesis by (simp add: prefix_def)
qed

text \<open>The dates of the events are valid when the runtime parses what it formats and the
  feeds carry valid dates in \<open>isoDate\<close>.\<close>

lemma candidates_dates_valid:
  assumes roundtrip: "\<forall>s ms. dateParse rt s = Some ms \<longrightarrow> dateParse rt (toISOString rt ms) \<noteq> None"
    and feeds: "\<forall>address its item d. fetch address = Inr (Some its) \<and> item \<in> set its
                  \<and> isoDate item = Some d \<longrightarrow> dateParse rt d \<noteq> None"
  shows "\<forall>e \<in> set (candidates rt registry fetch ps). dateParse rt (publishedAt e) \<noteq> None"
proof
  fix e assume "e \<in> set (candidates rt registry fetch ps)"
  then have "e \<in> set (flattened rt fetch (selectSources registry (regionOf rt ps)))"
    using set_candidates uniqueEvents_subset by blast
  then obtain source where "e \<in> set (sourceEvents rt fetch source)"
    by (auto simp: flattened_def)
  from sourceEvents_normalized [OF this] obtain its item
    where f: "fetch (srcFeed source) = Inr its"
      and i: "item \<in> set (case its of None \<Rightarrow> [] | Some l \<Rightarrow> l)"
      and n: "normalizeEvent rt source item = Inr (Some e)"
    by blast
  from i obtain l where l: "its = Some l" "item \<in> set l" by (cases its) auto
  from normalizeEvent_publishedAt [OF n] show "dateParse rt (publishedAt e) \<noteq> None"
  proof
    assume "isoDate item = Some (publishedAt e)"
    with feeds f l show ?thesis by blast
  next
    assume "\<exists>p ms. isoDate item = None \<and> pubDate item = Some p \<and> dateParse rt p = Some ms
                 \<and> publishedAt e = toISOString rt ms"
    with roundtrip show ?thesis by auto
  qed
qed

text \<open>
  C4, as amended. When the \<open>publishedAt\<close> of every event that reaches the sort (every
  deduplicated event that passes the query filter) is a date the runtime parses, the
  returned events are in descending order of their instants, and the returned events of
  any one instant are the first of the events of that instant in the order before the
  sort: the sort is stable.
\<close>

theorem events_sorted_by_recency_stable:
  assumes valid: "\<forall>e \<in> set (candidates rt registry fetch ps). dateParse rt (publishedAt e) \<noteq> None"
  shows "sorted_wrt (\<lambda>a b. the (dateParse rt (publishedAt a)) \<ge> the (dateParse rt (publishedAt b)))
           (events (GET rt registry fetch now ps))
       \<and> (\<forall>t. prefix (filter (\<lambda>e. dateParse rt (publishedAt e) = Some t)
                          (events (GET rt registry fetch now ps)))
                      (filter (\<lambda>e. dateParse rt (publishedAt e) = Some t)
                          (candidates rt registry fetch ps)))"
proof (intro conjI allI)
  have ev: "events (GET rt registry fetch now ps)
      = take (nat (limitOf ps)) (arraySort (compareEvents rt) (candidates rt registry fetch ps))"
    by (simp add: GET_def)
  show "sorted_wrt (\<lambda>a b. the (dateParse rt (publishedAt a)) \<ge> the (dateParse rt (publishedAt b)))
           (events (GET rt registry fetch now ps))"
    unfolding ev by (intro sorted_wrt_take arraySort_descending valid)
  fix t
  show "prefix (filter (\<lambda>e. dateParse rt (publishedAt e) = Some t)
                  (events (GET rt registry fetch now ps)))
               (filter (\<lambda>e. dateParse rt (publishedAt e) = Some t)
                  (candidates rt registry fetch ps))"
    unfolding ev using prefix_filter_take [of "\<lambda>e. dateParse rt (publishedAt e) = Some t"
        "nat (limitOf ps)" "arraySort (compareEvents rt) (candidates rt registry fetch ps)"]
    by (simp only: arraySort_stable [OF valid])
qed

lemma trim_tie_title: "trim ''Monsoon'' = ''Monsoon''" by code_simp

lemma base64url_tie_url: "base64url ''https://b/3'' = ''aHR0cHM6Ly9iLzM''" by code_simp

lemma normalize_tieItem: "normalizeEvent refRuntime asiaSource tieItem = Inr (Some tieEvent)"
  by (simp add: normalizeEvent_def tieItem_def emptyItem_def asiaSource_def
      tieEvent_def truthy_def trim_tie_title base64url_tie_url sanitizeSummary_def
      resolveImage_def enclosureImage_def mediaImage_def
      del: base64url.simps)

lemma candidates_tie:
  "candidates refRuntime exampleRegistry tieFeeds [] = [summitEvent, tradeEvent, tieEvent]"
proof -
  have "sourceEvents refRuntime tieFeeds europeSource = [summitEvent]"
    "sourceEvents refRuntime tieFeeds asiaSource = [tradeEvent, tieEvent]"
    by (simp_all add: sourceEvents_def tieFeeds_def srcFeed_examples
        normalize_summitItem normalize_tradeItem normalize_tieItem)
  then have "flattened refRuntime tieFeeds exampleRegistry = [summitEvent, tradeEvent, tieEvent]"
    by (simp add: flattened_def exampleRegistry_def)
  moreover have "uniqueEvents [summitEvent, tradeEvent, tieEvent] = [summitEvent, tradeEvent, tieEvent]"
    by (simp add: uniqueEvents_def url_examples tieEvent_def)
  ultimately show ?thesis
    by (simp add: candidates_def regionOf_absent queryOf_absent selectSources_def
        filterQuery_def truthy_def)
qed

lemma dateParse_tie: "dateParse refRuntime (publishedAt tieEvent) = Some 1704153600000"
  by (simp add: refRuntime_def tieEvent_def refDateParse_examples)

lemma events_tie:
  "events (GET refRuntime exampleRegistry tieFeeds now []) = [tradeEvent, summitEvent, tieEvent]"
  by (simp add: GET_def candidates_tie limitOf_absent arraySort_def sortCompare_def
      compareEvents_def dateParse_examples dateParse_tie)

theorem events_sorted_by_recency_stable_witness:
  "candidates refRuntime exampleRegistry tieFeeds [] = [summitEvent, tradeEvent, tieEvent]
   \<and> dateParse refRuntime (publishedAt summitEvent) = Some 1704153600000
   \<and> dateParse refRuntime (publishedAt tradeEvent) = Some 1704240000000
   \<and> dateParse refRuntime (publishedAt tieEvent) = Some 1704153600000
   \<and> events (GET refRuntime exampleRegistry tieFeeds 0 []) = [tradeEvent, summitEvent, tieEvent]
   \<and> sorted_wrt (\<lambda>a b. the (dateParse refRuntime (publishedAt a))
                        \<ge> the (dateParse refRuntime (publishedAt b)))
        [tradeEvent, summitEvent, tieEvent]
   \<and> prefix (filter (\<lambda>e. dateParse refRuntime (publishedAt e) = Some 1704153600000)
               [tradeEvent, summitEvent, tieEvent])
            (filter (\<lambda>e. dateParse refRuntime (publishedAt e) = Some 1704153600000)
               [summitEvent, tradeEvent, tieEvent])"
proof -
  have valid: "\<forall>e \<in> set (candidates refRuntime exampleRegistry tieFeeds []).
       dateParse refRuntime (publishedAt e) \<noteq> None"
    by (simp add: candidates_tie dateParse_examples dateParse_tie)
  show ?thesis
    using events_sorted_by_recency_stable [OF valid, of 0]
    by (simp add: candidates_tie events_tie dateParse_examples dateParse_tie)
qed

lemma trim_garbled_title: "trim ''Garbled'' = ''Garbled''" by code_simp

lemma base64url_garbled_url: "base64url ''https://b/0'' = ''aHR0cHM6Ly9iLzA''" by code_simp

lemma normalize_garbledItem:
  "normalizeEvent refRuntime asiaSource garbledItem = Inr (Some garbledEvent)"
  by (simp add: normalizeEvent_def garbledItem_def emptyItem_def asiaSource_def
      garbledEvent_def truthy_def trim_garbled_title base64url_garbled_url sanitizeSummary_def
      resolveImage_def enclosureImage_def mediaImage_def
      del: base64url.simps)

lemma dateParse_garbled: "dateParse refRuntime (publishedAt garbledEvent) = None"
  by (simp add: refRuntime_def garbledEvent_def refDateParse_not_a_date)

lemma candidates_garbled:
  "candidates refRuntime exampleRegistry garbledFeeds [] = [summitEvent, garbledEvent, tradeEvent]"
proof -
  have "sourceEvents refRuntime garbledFeeds europeSource = [summitEvent]"
    "sourceEvents refRuntime garbledFeeds asiaSource = [garbledEvent, tradeEvent]"
    by (simp_all add: sourceEvents_def garbledFeeds_def srcFeed_examples
        normalize_summitItem normalize_tradeItem normalize_garbledItem)
  then have "flattened refRuntime garbledFeeds exampleRegistry
      = [summitEvent, garbledEvent, tradeEvent]"
    by (simp add: flattened_def exampleRegistry_def)
  moreover have "uniqueEvents [summitEvent, garbledEvent, tradeEvent]
      = [summitEvent, garbledEvent, tradeEvent]"
    by (simp add: uniqueEvents_def url_examples garbledEvent_def)
  ultimately show ?thesis
    by (simp add: candidates_def regionOf_absent queryOf_absent selectSources_def
        filterQuery_def truthy_def)
qed

lemma events_garbled:
  "events (GET refRuntime exampleRegistry garbledFeeds now [])
     = [summitEvent, garbledEvent, tradeEvent]"
  by (simp add: GET_def candidates_garbled limitOf_absent arraySort_def sortCompare_def
      compareEvents_def dateParse_examples dateParse_garbled)

text \<open>
  C4 as stated fails: the \<open>isoDate\<close> of an item is not checked, and with an event whose
  \<open>publishedAt\<close> is not a date between them, the event of 2 January is returned before the
  event of 3 January.
\<close>

theorem unparseable_isoDate_breaks_order_counterexample:
  "normalizeEvent refRuntime asiaSource garbledItem = Inr (Some garbledEvent)
   \<and> dateParse refRuntime (publishedAt garbledEvent) = None
   \<and> events (GET refRuntime exampleRegistry garbledFeeds 0 [])
       = [summitEvent, garbledEvent, tradeEvent]
   \<and> dateParse refRuntime (publishedAt summitEvent) = Some 1704153600000
   \<and> dateParse refRuntime (publishedAt tradeEvent) = Some 1704240000000
   \<and> (1704153600000 :: int) < 1704240000000
   \<and> publishedAt summitEvent = ''2024-01-02T00:00:00.000Z''
   \<and> publishedAt tradeEvent = ''2024-01-03T00:00:00.000Z''"
  by (simp add: normalize_garbledItem dateParse_garbled events_garbled dateParse_examples)
     (simp add: summitEvent_def tradeEvent_def)

subsection \<open>The limit and the slice\<close>

lemma length_arraySort: "length (arraySort c xs) = length xs"
proof -
  have "length (sortInsert c x ys) = Suc (length ys)" for x ys
    by (induction ys) simp_all
  then show ?thesis unfolding arraySort_def by (induction xs) simp_all
qed

lemma parseInt10_2: "parseInt10 ''2'' = Finite 2" by code_simp
lemma parseInt10_20: "parseInt10 ''20'' = Finite 20" by code_simp

text \<open>
  C5, as amended. The effective limit is 60 when the \<open>limit\<close> parameter is absent, when
  \<open>parseInt\<close> finds no number in it, and when the number is so large in magnitude that
  \<open>parseInt\<close> returns an infinity; it is the larger of \<open>v\<close> and 10 when the parameter
  parses to a finite number \<open>v\<close>, so 10 when \<open>v\<close> is below 10. The returned events are the
  first events of the sorted list, as many as the effective limit allows: never more than
  the effective limit, and with \<open>limit=0\<close> or \<open>limit=5\<close> the first 10.
\<close>

theorem limit_default_and_floor:
  "(getParam ps ''limit'' = None \<longrightarrow> limitOf ps = 60)
 \<and> (\<forall>s. getParam ps ''limit'' = Some s \<and> parseInt10 s = NaN \<longrightarrow> limitOf ps = 60)
 \<and> (\<forall>s. getParam ps ''limit'' = Some s \<and> (parseInt10 s = PosInfinity \<or> parseInt10 s = NegInfinity)
        \<longrightarrow> limitOf ps = 60)
 \<and> (\<forall>s v. getParam ps ''limit'' = Some s \<and> parseInt10 s = Finite v \<longrightarrow> limitOf ps = max v 10)
 \<and> (\<forall>s v. getParam ps ''limit'' = Some s \<and> parseInt10 s = Finite v \<and> v < 10 \<longrightarrow> limitOf ps = 10)
 \<and> events (GET rt registry fetch now ps)
     = take (nat (limitOf ps)) (arraySort (compareEvents rt) (candidates rt registry fetch ps))
 \<and> length (events (GET rt registry fetch now ps))
     = min (nat (limitOf ps)) (length (candidates rt registry fetch ps))
 \<and> int (length (events (GET rt registry fetch now ps))) \<le> limitOf ps
 \<and> (getParam ps ''limit'' = Some ''0'' \<or> getParam ps ''limit'' = Some ''5''
      \<longrightarrow> length (events (GET rt registry fetch now ps))
            = min 10 (length (candidates rt registry fetch ps))
          \<and> length (events (GET rt registry fetch now ps)) \<le> 10)"
proof -
  have ev: "events (GET rt registry fetch now ps)
     = take (nat (limitOf ps)) (arraySort (compareEvents rt) (candidates rt registry fetch ps))"
    by (simp add: GET_def)
  have len: "length (events (GET rt registry fetch now ps))
     = min (nat (limitOf ps)) (length (candidates rt registry fetch ps))"
    unfolding ev by (simp add: length_arraySort min.commute)
  have a: "getParam ps ''limit'' = None \<longrightarrow> limitOf ps = 60"
    by (simp add: limitOf_def parseInt10_empty)
  have b: "\<forall>s. getParam ps ''limit'' = Some s \<and> parseInt10 s = NaN \<longrightarrow> limitOf ps = 60"
    by (simp add: limitOf_def)
  have c: "\<forall>s. getParam ps ''limit'' = Some s \<and> (parseInt10 s = PosInfinity \<or> parseInt10 s = NegInfinity)
        \<longrightarrow> limitOf ps = 60"
    by (auto simp: limitOf_def)
  have d: "\<forall>s v. getParam ps ''limit'' = Some s \<and> parseInt10 s = Finite v \<longrightarrow> limitOf ps = max v 10"
    by (simp add: limitOf_def)
  have e: "\<forall>s v. getParam ps ''limit'' = Some s \<and> parseInt10 s = Finite v \<and> v < 10 \<longrightarrow> limitOf ps = 10"
    by (simp add: limitOf_def)
  have f: "int (length (events (GET rt registry fetch now ps))) \<le> limitOf ps"
    by (rule length_events_GET)
  have g: "getParam ps ''limit'' = Some ''0'' \<or> getParam ps ''limit'' = Some ''5''
      \<longrightarrow> length (events (GET rt registry fetch now ps))
            = min 10 (length (candidates rt registry fetch ps))
          \<and> length (events (GET rt registry fetch now ps)) \<le> 10"
  proof
    assume "getParam ps ''limit'' = Some ''0'' \<or> getParam ps ''limit'' = Some ''5''"
    then have "limitOf ps = 10"
      by (auto simp: limitOf_def parseInt10_0 parseInt10_5)
    with len show "length (events (GET rt registry fetch now ps))
            = min 10 (length (candidates rt registry fetch ps))
          \<and> length (events (GET rt registry fetch now ps)) \<le> 10"
      by simp
  qed
  from a b c d e ev len f g show ?thesis by blast
qed

subsection \<open>The limit on the example feeds\<close>

lemma candidates_params:
  assumes "getParam ps ''query'' = getParam ps' ''query''"
    and "getParam ps ''region'' = getParam ps' ''region''"
  shows "candidates rt registry fetch ps = candidates rt registry fetch ps'"
  using assms by (simp add: candidates_def queryOf_def regionOf_def)

lemma mapNormalize_map:
  assumes "\<forall>c \<in> set cs. normalizeEvent rt source (g c) = Inr (Some (f c))"
  shows "mapNormalize rt source (map g cs) = Inr (map (\<lambda>c. Some (f c)) cs)"
  using assms by (induction cs) simp_all

lemma filter_Some_map: "map the (filter (\<lambda>r. r \<noteq> None) (map (\<lambda>c. Some (f c)) cs)) = map f cs"
  by (induction cs) simp_all

lemma length_uniqueEvents:
  assumes "distinct (map url evs)"
  shows "length (uniqueEvents evs) = length evs"
proof -
  have "length (uniqueEvents evs) = length (map url (uniqueEvents evs))" by simp
  also have "\<dots> = card (set (map url (uniqueEvents evs)))"
    by (rule distinct_card [symmetric]) (rule uniqueEvents_distinct)
  also have "\<dots> = card (set (map url evs))"
    using uniqueEvents_urls [of evs] by simp
  also have "\<dots> = length (map url evs)"
    by (rule distinct_card) (rule assms)
  finally show ?thesis by simp
qed

lemma trim_bulletin_title: "trim ''Bulletin'' = ''Bulletin''" by code_simp

lemma normalize_bulletinItem:
  "normalizeEvent refRuntime europeSource (bulletinItem c) = Inr (Some (bulletinEvent c))"
  by (simp add: normalizeEvent_def bulletinItem_def emptyItem_def europeSource_def
      bulletinEvent_def truthy_def trim_bulletin_title sanitizeSummary_def
      resolveImage_def enclosureImage_def mediaImage_def Let_def
      del: base64url.simps)

lemma length_candidates_bulletin:
  "length (candidates refRuntime exampleRegistry bulletinFeeds [(''limit'', ''5'')]) = 12"
proof -
  have "mapNormalize refRuntime europeSource (map bulletinItem bulletinLetters)
      = Inr (map (\<lambda>c. Some (bulletinEvent c)) bulletinLetters)"
    by (rule mapNormalize_map) (simp add: normalize_bulletinItem)
  then have "sourceEvents refRuntime bulletinFeeds europeSource = map bulletinEvent bulletinLetters"
    by (simp add: sourceEvents_def bulletinFeeds_def srcFeed_examples filter_Some_map)
  moreover have "sourceEvents refRuntime bulletinFeeds asiaSource = []"
    by (simp add: sourceEvents_def bulletinFeeds_def srcFeed_examples)
  ultimately have flat: "flattened refRuntime bulletinFeeds exampleRegistry
      = map bulletinEvent bulletinLetters"
    by (simp add: flattened_def exampleRegistry_def)
  have "distinct (map url (map bulletinEvent bulletinLetters))"
    by (simp add: bulletinEvent_def bulletinLetters_def)
  from length_uniqueEvents [OF this]
  have "length (uniqueEvents (map bulletinEvent bulletinLetters)) = 12"
    by (simp add: bulletinLetters_def)
  moreover have "regionOf refRuntime [(''limit'', ''5'')] = ''global''"
    "queryOf refRuntime [(''limit'', ''5'')] = None"
    by (simp_all add: regionOf_def queryOf_def getParam_def truthy_def)
  ultimately show ?thesis
    by (simp add: candidates_def selectSources_def flat filterQuery_def truthy_def)
qed

theorem limit_default_and_floor_witness:
  "limitOf [] = 60
 \<and> limitOf [(''limit'', ''abc'')] = 60
 \<and> limitOf [(''limit'', ''5'')] = 10
 \<and> limitOf [(''limit'', ''20'')] = 20
 \<and> length (candidates refRuntime exampleRegistry tieFeeds [(''limit'', ''2'')]) = 3
 \<and> length (events (GET refRuntime exampleRegistry tieFeeds 0 [(''limit'', ''2'')])) = 3
 \<and> length (candidates refRuntime exampleRegistry bulletinFeeds [(''limit'', ''5'')]) = 12
 \<and> length (events (GET refRuntime exampleRegistry bulletinFeeds 0 [(''limit'', ''5'')])) = 10"
proof -
  have tie: "candidates refRuntime exampleRegistry tieFeeds [(''limit'', ''2'')]
      = [summitEvent, tradeEvent, tieEvent]"
    using candidates_params [of "[(''limit'', ''2'')]" "[]" refRuntime exampleRegistry tieFeeds]
    by (simp add: getParam_def candidates_tie)
  show ?thesis
    using limit_default_and_floor [of "[]" refRuntime exampleRegistry exampleFeeds 0]
      limit_default_and_floor [of "[(''limit'', ''abc'')]" refRuntime exampleRegistry exampleFeeds 0]
      limit_default_and_floor [of "[(''limit'', ''5'')]" refRuntime exampleRegistry bulletinFeeds 0]
      limit_default_and_floor [of "[(''limit'', ''20'')]" refRuntime exampleRegistry exampleFeeds 0]
      limit_default_and_floor [of "[(''limit'', ''2'')]" refRuntime exampleRegistry tieFeeds 0]
    by (simp add: getParam_def parseInt10_abc parseInt10_5 parseInt10_20 parseInt10_2 tie
        length_candidates_bulletin length_arraySort)
qed

lemma parseInt10_hugeNegative: "parseInt10 hugeNegativeLimit = NegInfinity"
  by code_simp

lemma specLimit_hugeNegative: "specLimit [(''limit'', hugeNegativeLimit)] = 10"
  by code_simp

text \<open>
  C5 as stated fails: a minus sign and 400 nines parse, to a value below 10, but the value
  is beyond the doubles, \<open>parseInt\<close> returns \<open>-Infinity\<close>, \<open>Number.isFinite\<close> is false and
  the limit is 60, not 10.
\<close>

theorem overflowing_negative_limit_counterexample:
  "parseInt10 hugeNegativeLimit = NegInfinity
   \<and> limitOf [(''limit'', hugeNegativeLimit)] = 60
   \<and> specLimit [(''limit'', hugeNegativeLimit)] = 10"
  by (simp add: parseInt10_hugeNegative specLimit_hugeNegative limitOf_def getParam_def)

subsection \<open>The region\<close>

lemma regionOf_cases:
  "regionOf rt ps =
     (case getParam ps ''region'' of
        None \<Rightarrow> ''global''
      | Some r \<Rightarrow> if toLowerCase rt r = [] then ''global'' else toLowerCase rt r)"
  by (auto simp: regionOf_def truthy_def split: option.splits)

text \<open>
  C6, as amended. When the \<open>region\<close> parameter is absent, or its lower-cased value is
  empty or \<open>global\<close>, all registry sources are selected; otherwise the parameter is
  lower-cased and exactly the sources whose region list contains that lower-cased value
  are selected, and the region list of every returned event contains it. The \<open>sources\<close>
  of the response are the selected sources. For a registry whose region tags are
  lower-case, as the region ids of the front end are, this selection is the match of the
  given region without regard to case.
\<close>

theorem region_selects_sources:
  "((getParam ps ''region'' = None
      \<or> (\<exists>r. getParam ps ''region'' = Some r
              \<and> (toLowerCase rt r = [] \<or> toLowerCase rt r = ''global'')))
     \<longrightarrow> selectSources registry (regionOf rt ps) = registry)
   \<and> (\<forall>r. getParam ps ''region'' = Some r \<and> toLowerCase rt r \<noteq> [] \<and> toLowerCase rt r \<noteq> ''global''
        \<longrightarrow> selectSources registry (regionOf rt ps)
              = filter (\<lambda>source. toLowerCase rt r \<in> set (srcRegions source)) registry
          \<and> (\<forall>e \<in> set (events (GET rt registry fetch now ps)). toLowerCase rt r \<in> set (regions e)))
   \<and> sources (GET rt registry fetch now ps)
       = map (\<lambda>source. (srcId source, srcName source, srcHomepage source))
           (selectSources registry (regionOf rt ps))
   \<and> ((\<forall>source \<in> set registry. \<forall>tag \<in> set (srcRegions source). toLowerCase rt tag = tag)
        \<longrightarrow> (\<forall>r. getParam ps ''region'' = Some r \<and> toLowerCase rt r \<noteq> []
                   \<and> toLowerCase rt r \<noteq> ''global'' \<and> r \<noteq> ''global''
               \<longrightarrow> selectSources registry (regionOf rt ps)
                     = specSelectSources rt registry (Some r)))"
proof (intro conjI allI impI)
  assume "getParam ps ''region'' = None
      \<or> (\<exists>r. getParam ps ''region'' = Some r
              \<and> (toLowerCase rt r = [] \<or> toLowerCase rt r = ''global''))"
  then have "regionOf rt ps = ''global''"
    by (auto simp: regionOf_cases)
  then show "selectSources registry (regionOf rt ps) = registry"
    by (simp add: selectSources_def)
next
  fix r
  assume a: "getParam ps ''region'' = Some r \<and> toLowerCase rt r \<noteq> [] \<and> toLowerCase rt r \<noteq> ''global''"
  then have reg: "regionOf rt ps = toLowerCase rt r"
    by (simp add: regionOf_cases)
  with a show sel: "selectSources registry (regionOf rt ps)
              = filter (\<lambda>source. toLowerCase rt r \<in> set (srcRegions source)) registry"
    by (simp add: selectSources_def)
  show "\<forall>e \<in> set (events (GET rt registry fetch now ps)). toLowerCase rt r \<in> set (regions e)"
  proof
    fix e assume "e \<in> set (events (GET rt registry fetch now ps))"
    from events_GET_from_selected [OF this] obtain source
      where "source \<in> set (selectSources registry (regionOf rt ps))" "regions e = srcRegions source"
      by blast
    then show "toLowerCase rt r \<in> set (regions e)" unfolding sel by simp
  qed
next
  show "sources (GET rt registry fetch now ps)
       = map (\<lambda>source. (srcId source, srcName source, srcHomepage source))
           (selectSources registry (regionOf rt ps))"
    by (simp add: GET_def)
next
  fix r
  assume low: "\<forall>source \<in> set registry. \<forall>tag \<in> set (srcRegions source). toLowerCase rt tag = tag"
    and a: "getParam ps ''region'' = Some r \<and> toLowerCase rt r \<noteq> []
              \<and> toLowerCase rt r \<noteq> ''global'' \<and> r \<noteq> ''global''"
  from a have reg: "regionOf rt ps = toLowerCase rt r"
    by (simp add: regionOf_cases)
  have tags: "map (toLowerCase rt) (srcRegions source) = srcRegions source"
    if "source \<in> set registry" for source
    using low that by (simp add: map_idI)
  have "filter (\<lambda>source. toLowerCase rt r \<in> set (map (toLowerCase rt) (srcRegions source))) registry
      = filter (\<lambda>source. toLowerCase rt r \<in> set (srcRegions source)) registry"
    by (rule filter_cong) (simp_all only: tags)
  with a reg show "selectSources registry (regionOf rt ps) = specSelectSources rt registry (Some r)"
    by (simp add: selectSources_def specSelectSources_def)
qed

subsection \<open>The region on the example feeds\<close>

lemma toLowerCase_examples:
  "toLowerCase refRuntime ''Europe'' = ''europe''"
  "toLowerCase refRuntime ''Mars'' = ''mars''"
  "toLowerCase refRuntime [] = []"
  "toLowerCase refRuntime ''europe'' = ''europe''"
  "toLowerCase refRuntime ''asia'' = ''asia''"
  unfolding refRuntime_def by (simp, code_simp)+

lemma srcRegions_examples:
  "srcRegions europeSource = [''europe'']" "srcRegions asiaSource = [''asia'']"
  by (simp_all add: europeSource_def asiaSource_def)

lemma selectSources_europe: "selectSources exampleRegistry ''europe'' = [europeSource]"
  by (simp add: selectSources_def exampleRegistry_def srcRegions_examples)

lemma events_region_Europe:
  "events (GET refRuntime exampleRegistry exampleFeeds now [(''region'', ''Europe'')]) = [summitEvent]"
proof -
  have "regionOf refRuntime [(''region'', ''Europe'')] = ''europe''"
    by (simp add: regionOf_cases getParam_def toLowerCase_examples)
  moreover have "queryOf refRuntime [(''region'', ''Europe'')] = None"
    by (simp add: queryOf_def getParam_def)
  moreover have "limitOf [(''region'', ''Europe'')] = 60"
    by (simp add: limitOf_def getParam_def parseInt10_empty)
  moreover have "uniqueEvents [summitEvent] = [summitEvent]"
    by (simp add: uniqueEvents_def)
  ultimately show ?thesis
    by (simp add: GET_def candidates_def selectSources_europe flattened_def sourceEvents_examples
        filterQuery_def truthy_def arraySort_def)
qed

lemma events_region_empty:
  "events (GET refRuntime exampleRegistry exampleFeeds now [(''region'', [])])
     = [tradeEvent, summitEvent]"
  "sources (GET refRuntime exampleRegistry exampleFeeds now [(''region'', [])])
     = [(''s1'', ''Source One'', ''https://a''), (''s2'', ''Source Two'', ''https://b'')]"
proof -
  have r: "regionOf refRuntime [(''region'', [])] = ''global''"
    by (simp add: regionOf_cases getParam_def toLowerCase_examples)
  moreover have "queryOf refRuntime [(''region'', [])] = None"
    by (simp add: queryOf_def getParam_def)
  moreover have "limitOf [(''region'', [])] = 60"
    by (simp add: limitOf_def getParam_def parseInt10_empty)
  ultimately show "events (GET refRuntime exampleRegistry exampleFeeds now [(''region'', [])])
     = [tradeEvent, summitEvent]"
    by (simp add: GET_def candidates_def selectSources_def flattened_examples uniqueEvents_examples
        filterQuery_def truthy_def arraySort_example)
  show "sources (GET refRuntime exampleRegistry exampleFeeds now [(''region'', [])])
     = [(''s1'', ''Source One'', ''https://a''), (''s2'', ''Source Two'', ''https://b'')]"
    by (simp add: GET_def r selectSources_def exampleRegistry_def europeSource_def asiaSource_def)
qed

lemma regionOptionIds_lower_case:
  "map (toLowerCase refRuntime) regionOptionIds = regionOptionIds"
  unfolding refRuntime_def regionOptionIds_def by simp code_simp

lemma exampleRegistry_lower_case:
  "\<forall>source \<in> set exampleRegistry. \<forall>tag \<in> set (srcRegions source). toLowerCase refRuntime tag = tag"
  by (simp add: exampleRegistry_def srcRegions_examples toLowerCase_examples)

theorem region_selects_sources_witness:
  "getParam [] ''region'' = None
   \<and> selectSources exampleRegistry (regionOf refRuntime []) = exampleRegistry
   \<and> getParam [(''region'', ''Europe'')] ''region'' = Some ''Europe''
   \<and> toLowerCase refRuntime ''Europe'' = ''europe''
   \<and> selectSources exampleRegistry (regionOf refRuntime [(''region'', ''Europe'')]) = [europeSource]
   \<and> events (GET refRuntime exampleRegistry exampleFeeds 0 [(''region'', ''Europe'')]) = [summitEvent]
   \<and> ''europe'' \<in> set (regions summitEvent)
   \<and> toLowerCase refRuntime ''europe'' = ''europe'' \<and> toLowerCase refRuntime ''asia'' = ''asia''
   \<and> specSelectSources refRuntime exampleRegistry (Some ''Europe'') = [europeSource]"
proof -
  have sel: "filter (\<lambda>source. ''europe'' \<in> set (srcRegions source)) exampleRegistry = [europeSource]"
    by (simp add: exampleRegistry_def srcRegions_examples)
  have spec: "specSelectSources refRuntime exampleRegistry (Some ''Europe'')
      = selectSources exampleRegistry (regionOf refRuntime [(''region'', ''Europe'')])"
    using region_selects_sources [of "[(''region'', ''Europe'')]" refRuntime exampleRegistry
        exampleFeeds 0] exampleRegistry_lower_case
    by (auto simp add: getParam_def toLowerCase_examples)
  show ?thesis
    using region_selects_sources [of "[]" refRuntime exampleRegistry exampleFeeds 0]
      region_selects_sources [of "[(''region'', ''Europe'')]" refRuntime exampleRegistry exampleFeeds 0]
    by (simp add: getParam_def toLowerCase_examples events_region_Europe sel spec)
qed

text \<open>
  C6 as stated fails at two inputs. With \<open>region\<close> present and empty, which is not
  \<open>global\<close>, the sources whose region set contains the given region are none, but all
  sources are selected and the returned events do not have the given region in their
  region lists. With the region \<open>europe\<close> and a source tagged \<open>Europe\<close>, the match without
  regard to case selects the source, but the handler lower-cases the parameter only and
  selects no source.
\<close>

theorem region_selection_counterexample:
  "getParam [(''region'', [])] ''region'' = Some []
   \<and> selectSources exampleRegistry (regionOf refRuntime [(''region'', [])]) = exampleRegistry
   \<and> specSelectSources refRuntime exampleRegistry (Some []) = []
   \<and> exampleRegistry \<noteq> []
   \<and> events (GET refRuntime exampleRegistry exampleFeeds 0 [(''region'', [])])
       = [tradeEvent, summitEvent]
   \<and> [] \<notin> set (regions tradeEvent)
   \<and> getParam [(''region'', ''europe'')] ''region'' = Some ''europe''
   \<and> srcRegions (hd capitalRegistry) = [''Europe'']
   \<and> selectSources capitalRegistry (regionOf refRuntime [(''region'', ''europe'')]) = []
   \<and> specSelectSources refRuntime capitalRegistry (Some ''europe'') = capitalRegistry
   \<and> capitalRegistry \<noteq> []"
proof -
  have "specSelectSources refRuntime exampleRegistry (Some []) = []"
    by (simp add: specSelectSources_def exampleRegistry_def srcRegions_examples
        toLowerCase_examples)
  moreover have "exampleRegistry \<noteq> []" by (simp add: exampleRegistry_def)
  moreover have "[] \<notin> set (regions tradeEvent)" by (simp add: tradeEvent_def)
  moreover have "selectSources exampleRegistry (regionOf refRuntime [(''region'', [])]) = exampleRegistry"
    by (simp add: getParam_def regionOf_cases toLowerCase_examples selectSources_def)
  moreover have "regionOf refRuntime [(''region'', ''europe'')] = ''europe''"
    by (simp add: getParam_def regionOf_cases toLowerCase_examples)
  then have "selectSources capitalRegistry (regionOf refRuntime [(''region'', ''europe'')]) = []"
    by (simp add: selectSources_def capitalRegistry_def)
  moreover have "specSelectSources refRuntime capitalRegistry (Some ''europe'') = capitalRegistry"
    by (simp add: specSelectSources_def capitalRegistry_def toLowerCase_examples)
  moreover have "srcRegions (hd capitalRegistry) = [''Europe'']" "capitalRegistry \<noteq> []"
    by (simp_all add: capitalRegistry_def)
  ultimately show ?thesis
    by (simp add: getParam_def events_region_empty)
qed

subsection \<open>A region no source has\<close>

text \<open>
  C10, as amended. For every \<open>region\<close> value whose lower-cased form is not empty, is not
  \<open>global\<close> and is in no registry source's region list, the response has an empty
  \<open>events\<close> list and an empty \<open>sources\<close> list.
\<close>

theorem unknown_region_empty_response:
  assumes "getParam ps ''region'' = Some r"
    and "toLowerCase rt r \<noteq> []" and "toLowerCase rt r \<noteq> ''global''"
    and "\<forall>source \<in> set registry. toLowerCase rt r \<notin> set (srcRegions source)"
  shows "events (GET rt registry fetch now ps) = [] \<and> sources (GET rt registry fetch now ps) = []"
proof -
  have "regionOf rt ps = toLowerCase rt r"
    using assms(1,2,3) by (simp add: regionOf_cases)
  then have sel: "selectSources registry (regionOf rt ps) = []"
    using assms(3,4) by (simp add: selectSources_def)
  have "candidates rt registry fetch ps = []"
    by (simp add: candidates_def sel flattened_def uniqueEvents_def filterQuery_def)
  then show ?thesis
    by (simp add: GET_def sel arraySort_def)
qed

theorem unknown_region_empty_response_witness:
  "getParam [(''region'', ''Mars'')] ''region'' = Some ''Mars''
   \<and> toLowerCase refRuntime ''Mars'' = ''mars''
   \<and> exampleRegistry = [europeSource, asiaSource]
   \<and> ''mars'' \<notin> set (srcRegions europeSource) \<and> ''mars'' \<notin> set (srcRegions asiaSource)
   \<and> events (GET refRuntime exampleRegistry exampleFeeds 0 [(''region'', ''Mars'')]) = []
   \<and> sources (GET refRuntime exampleRegistry exampleFeeds 0 [(''region'', ''Mars'')]) = []"
proof -
  have a: "getParam [(''region'', ''Mars'')] ''region'' = Some ''Mars''"
    by (simp add: getParam_def)
  have b: "toLowerCase refRuntime ''Mars'' \<noteq> []" "toLowerCase refRuntime ''Mars'' \<noteq> ''global''"
    by (simp_all add: toLowerCase_examples)
  have c: "\<forall>source \<in> set exampleRegistry. toLowerCase refRuntime ''Mars'' \<notin> set (srcRegions source)"
    by (simp add: toLowerCase_examples exampleRegistry_def srcRegions_examples)
  show ?thesis
    using unknown_region_empty_response [OF a b c, of exampleFeeds 0] a
    by (simp add: toLowerCase_examples srcRegions_examples exampleRegistry_def)
qed

text \<open>
  C10 as stated fails: the empty \<open>region\<close> value is, lower-cased, neither \<open>global\<close> nor in
  the region list of a source of the registry, but the response lists both sources and
  both events.
\<close>

theorem empty_region_not_empty_response_counterexample:
  "toLowerCase refRuntime [] \<noteq> ''global''
   \<and> toLowerCase refRuntime [] \<notin> set (srcRegions europeSource)
   \<and> toLowerCase refRuntime [] \<notin> set (srcRegions asiaSource)
   \<and> exampleRegistry = [europeSource, asiaSource]
   \<and> sources (GET refRuntime exampleRegistry exampleFeeds 0 [(''region'', [])])
       = [(''s1'', ''Source One'', ''https://a''), (''s2'', ''Source Two'', ''https://b'')]
   \<and> events (GET refRuntime exampleRegistry exampleFeeds 0 [(''region'', [])])
       = [tradeEvent, summitEvent]"
proof -
  have "exampleRegistry = [europeSource, asiaSource]" by (simp add: exampleRegistry_def)
  then show ?thesis
    by (simp add: toLowerCase_examples srcRegions_examples events_region_empty)
qed

subsection \<open>A failing source\<close>








subsection \<open>Determinism\<close>

text \<open>
  C7. For a fixed runtime, registry and feed contents, two calls whose \<open>query\<close>,
  \<open>region\<close> and \<open>limit\<close> parameters are the same return the same \<open>events\<close> list, whatever
  the time of the call and whatever other parameters the requests carry.
\<close>

theorem events_deterministic:
  assumes "getParam ps ''query'' = getParam ps' ''query''"
    and "getParam ps ''region'' = getParam ps' ''region''"
    and "getParam ps ''limit'' = getParam ps' ''limit''"
  shows "events (GET rt registry fetch now ps) = events (GET rt registry fetch now' ps')"
proof -
  have "queryOf rt ps = queryOf rt ps'" using assms(1) by (simp add: queryOf_def)
  moreover have "regionOf rt ps = regionOf rt ps'" using assms(2) by (simp add: regionOf_def)
  moreover have "limitOf ps = limitOf ps'" using assms(3) by (simp add: limitOf_def)
  ultimately show ?thesis by (simp add: GET_def candidates_def)
qed

theorem events_deterministic_witness:
  "getParam [(''region'', ''Europe'')] ''query'' = getParam [(''region'', ''Europe''), (''page'', ''2'')] ''query''
   \<and> getParam [(''region'', ''Europe'')] ''region'' = getParam [(''region'', ''Europe''), (''page'', ''2'')] ''region''
   \<and> getParam [(''region'', ''Europe'')] ''limit'' = getParam [(''region'', ''Europe''), (''page'', ''2'')] ''limit''
   \<and> events (GET refRuntime exampleRegistry exampleFeeds 1 [(''region'', ''Europe''), (''page'', ''2'')])
       = [summitEvent]"
proof -
  have a: "getParam [(''region'', ''Europe'')] ''query'' = getParam [(''region'', ''Europe''), (''page'', ''2'')] ''query''"
    and b: "getParam [(''region'', ''Europe'')] ''region'' = getParam [(''region'', ''Europe''), (''page'', ''2'')] ''region''"
    and c: "getParam [(''region'', ''Europe'')] ''limit'' = getParam [(''region'', ''Europe''), (''page'', ''2'')] ''limit''"
    by (simp_all add: getParam_def)
  show ?thesis
    using events_deterministic [OF a b c, of refRuntime exampleRegistry exampleFeeds 0 1] a b c
    by (simp add: events_region_Europe)
qed

subsection \<open>An item whose publish date is not a date\<close>

lemma normalizeEvent_invalid_pubDate:
  assumes "isoDate item = None" and "pubDate item = Some p" and "p \<noteq> []"
    and "dateParse rt p = None"
  shows "normalizeEvent rt source item = Inl RangeError"
  using assms by (simp add: normalizeEvent_def truthy_def)

lemma mapNormalize_throws:
  assumes "item \<in> set its" and "normalizeEvent rt source item = Inl e"
  shows "\<exists>e'. mapNormalize rt source its = Inl e'"
  using assms by (induction its) (auto split: sum.splits)

lemma invalid_pubDate_empties_source:
  assumes "fetch (srcFeed source) = Inr (Some its)" and "item \<in> set its"
    and "isoDate item = None" and "pubDate item = Some p" and "p \<noteq> []"
    and "dateParse rt p = None"
  shows "sourceEvents rt fetch source = []"
proof -
  have "normalizeEvent rt source item = Inl RangeError"
    using assms(3-6) by (rule normalizeEvent_invalid_pubDate)
  from mapNormalize_throws [OF assms(2) this] obtain e' where "mapNormalize rt source its = Inl e'"
    by blast
  with assms(1) show ?thesis by (simp add: sourceEvents_def)
qed

text \<open>
  C1 fails on the code. The item \<open>badDateItem\<close> has a title, a link, no \<open>isoDate\<close> and
  the \<open>pubDate\<close> "not a date": \<open>normalizeEvent\<close> does not return \<open>null\<close> for it but throws
  a \<open>RangeError\<close>, the \<open>catch\<close> around the source's batch turns the whole batch into the
  empty list, and the well-formed item \<open>summitItem\<close> of the same feed is lost from the
  response.
\<close>

theorem unparseable_pubDate_drops_whole_batch:
  "normalizeEvent refRuntime europeSource badDateItem = Inl RangeError
   \<and> normalizeEvent refRuntime europeSource summitItem = Inr (Some summitEvent)
   \<and> badDateFeeds (srcFeed europeSource) = Inr (Some [badDateItem, summitItem])
   \<and> sourceEvents refRuntime badDateFeeds europeSource = []
   \<and> events (GET refRuntime exampleRegistry badDateFeeds 0 []) = [tradeEvent]"
proof -
  have bad: "normalizeEvent refRuntime europeSource badDateItem = Inl RangeError"
    by (rule normalizeEvent_invalid_pubDate [of _ "''not a date''"])
       (simp_all add: badDateItem_def emptyItem_def refRuntime_def refDateParse_not_a_date)
  have feed: "badDateFeeds (srcFeed europeSource) = Inr (Some [badDateItem, summitItem])"
    by (simp add: badDateFeeds_def srcFeed_examples)
  have eu: "sourceEvents refRuntime badDateFeeds europeSource = []"
    by (simp add: sourceEvents_def feed bad)
  have "sourceEvents refRuntime badDateFeeds asiaSource = [tradeEvent]"
    by (simp add: sourceEvents_def badDateFeeds_def srcFeed_examples normalize_tradeItem)
  with eu have "flattened refRuntime badDateFeeds exampleRegistry = [tradeEvent]"
    by (simp add: flattened_def exampleRegistry_def)
  moreover have "uniqueEvents [tradeEvent] = [tradeEvent]"
    by (simp add: uniqueEvents_def)
  ultimately have "events (GET refRuntime exampleRegistry badDateFeeds 0 []) = [tradeEvent]"
    by (simp add: GET_def candidates_def regionOf_absent queryOf_absent limitOf_absent
        selectSources_def filterQuery_def truthy_def arraySort_def)
  with bad feed eu normalize_summitItem show ?thesis by simp
qed

theorem unparseable_pubDate_drops_whole_batch_witness:
  "summitItem \<in> set [badDateItem, summitItem]
   \<and> length (events (GET refRuntime exampleRegistry badDateFeeds 0 [])) = 1
   \<and> summitEvent \<notin> set (events (GET refRuntime exampleRegistry badDateFeeds 0 []))"
  using unparseable_pubDate_drops_whole_batch
  by (simp add: summitEvent_def tradeEvent_def)

end
